theory Spec2Isabelle
  imports Complex_Main
begin

section \<open>Arrays, errors and the numpy primitives the library calls\<close>

text \<open>
  The repository is a numpy program. Its floating-point numbers are read here as exact real
  and complex numbers, a one-dimensional array is a list and a two-dimensional array a list
  of rows. Every statement below is therefore about the exact arithmetic the code spells
  out; rounding is not modelled. An exception is a value \<open>Inl e\<close> of the result type.
\<close>

type_synonym cvec = "complex list"
type_synonym cmat = "complex list list"

datatype error = ValueError | IndexError | NameError string | ZeroDivisionError

definition and_then :: "error + 'a \<Rightarrow> ('a \<Rightarrow> error + 'b) \<Rightarrow> error + 'b" where
  "and_then r f = (case r of Inl e \<Rightarrow> Inl e | Inr v \<Rightarrow> f v)"

text \<open>
  \<open>np.fft.fft\<close> and \<open>np.fft.ifft\<close>: the discrete Fourier transform and its inverse with
  numpy's normalisation (none forward, \<open>1/n\<close> backward). Both raise ValueError on an
  array of length 0.
\<close>

definition np_fft :: "cvec \<Rightarrow> error + cvec" where
  "np_fft a =
     (if a = [] then Inl ValueError
      else Inr (map (\<lambda>k. \<Sum>j<length a. a ! j * cis (- (2 * pi * real j * real k / real (length a))))
                    [0..<length a]))"

definition np_ifft :: "cvec \<Rightarrow> error + cvec" where
  "np_ifft a =
     (if a = [] then Inl ValueError
      else Inr (map (\<lambda>j. (\<Sum>k<length a. a ! k * cis (2 * pi * real j * real k / real (length a)))
                          / of_nat (length a))
                    [0..<length a]))"

text \<open>
  \<open>np.roll(x, shift)\<close> on a one-dimensional array: element \<open>i\<close> of the result is element
  \<open>(i - shift) mod n\<close> of \<open>x\<close>. \<open>np.fft.fftshift\<close> rolls by \<open>n // 2\<close> and
  \<open>np.fft.ifftshift\<close> by \<open>-(n // 2)\<close>.
\<close>

definition np_roll :: "'a list \<Rightarrow> int \<Rightarrow> 'a list" where
  "np_roll x shift = map (\<lambda>i. x ! nat ((int i - shift) mod int (length x))) [0..<length x]"

definition fftshift :: "'a list \<Rightarrow> 'a list" where
  "fftshift x = np_roll x (int (length x div 2))"

definition ifftshift :: "'a list \<Rightarrow> 'a list" where
  "ifftshift x = np_roll x (- int (length x div 2))"

text \<open>
  Two-dimensional arrays. \<open>mat r c f\<close> tabulates \<open>f\<close> on \<open>r\<close> rows and \<open>c\<close> columns.
  A list of rows cannot tell the shapes \<open>(0, c)\<close> apart, so it stands for numpy arrays
  with at least one row, and for the empty array of shape \<open>(0, 0)\<close>.
\<close>

type_synonym rvec = "real list"
type_synonym imat = "int list list"

definition nrows :: "'a list list \<Rightarrow> nat" where
  "nrows a = length a"

definition ncols :: "'a list list \<Rightarrow> nat" where
  "ncols a = (case a of [] \<Rightarrow> 0 | r # _ \<Rightarrow> length r)"

definition mat :: "nat \<Rightarrow> nat \<Rightarrow> (nat \<Rightarrow> nat \<Rightarrow> 'a) \<Rightarrow> 'a list list" where
  "mat r c f = map (\<lambda>i. map (\<lambda>j. f i j) [0..<c]) [0..<r]"

definition np_zeros :: "nat \<Rightarrow> cvec" where
  "np_zeros n = replicate n 0"

definition np_identity :: "nat \<Rightarrow> cmat" where
  "np_identity n = mat n n (\<lambda>i j. if i = j then 1 else 0)"

definition np_diag :: "cvec \<Rightarrow> cmat" where
  "np_diag v = mat (length v) (length v) (\<lambda>i j. if i = j then v ! i else 0)"

text \<open>
  Broadcasting of one axis: two lengths are compatible when they are equal or one of them
  is 1; an incompatible pair raises ValueError.
\<close>

definition bdim :: "nat \<Rightarrow> nat \<Rightarrow> nat option" where
  "bdim a b = (if a = b then Some a else if a = 1 then Some b else if b = 1 then Some a else None)"

definition bidx :: "nat \<Rightarrow> nat \<Rightarrow> nat" where
  "bidx d i = (if d = 1 then 0 else i)"

definition bcast1 :: "('a \<Rightarrow> 'b \<Rightarrow> 'c) \<Rightarrow> 'a list \<Rightarrow> 'b list \<Rightarrow> error + 'c list" where
  "bcast1 f x y =
     (case bdim (length x) (length y) of
        None \<Rightarrow> Inl ValueError
      | Some l \<Rightarrow> Inr (map (\<lambda>i. f (x ! bidx (length x) i) (y ! bidx (length y) i)) [0..<l]))"

definition bcast2 :: "('a \<Rightarrow> 'b \<Rightarrow> 'c) \<Rightarrow> 'a list list \<Rightarrow> 'b list list \<Rightarrow> error + 'c list list" where
  "bcast2 f a b =
     (case bdim (nrows a) (nrows b) of
        None \<Rightarrow> Inl ValueError
      | Some r \<Rightarrow>
          (case bdim (ncols a) (ncols b) of
             None \<Rightarrow> Inl ValueError
           | Some c \<Rightarrow>
               Inr (mat r c (\<lambda>i j. f (a ! bidx (nrows a) i ! bidx (ncols a) j)
                                      (b ! bidx (nrows b) i ! bidx (ncols b) j)))))"

text \<open>\<open>np.full(n, fill)\<close> with an array as fill value broadcasts it to shape \<open>(n,)\<close>.\<close>

definition np_full :: "nat \<Rightarrow> 'a list \<Rightarrow> error + 'a list" where
  "np_full n fill =
     (if length fill = n then Inr fill
      else if length fill = 1 then Inr (replicate n (fill ! 0))
      else Inl ValueError)"

text \<open>
  Indexing a one-dimensional array with an array of integers, \<open>x[idx]\<close>: a negative index
  counts from the end, an index outside \<open>[-len, len)\<close> raises IndexError.
\<close>

definition py_index_ok :: "nat \<Rightarrow> int \<Rightarrow> bool" where
  "py_index_ok l i = (- int l \<le> i \<and> i < int l)"

definition py_index :: "'a list \<Rightarrow> int \<Rightarrow> 'a" where
  "py_index x i = x ! nat (if i < 0 then i + int (length x) else i)"

definition np_take1 :: "'a list \<Rightarrow> int list \<Rightarrow> error + 'a list" where
  "np_take1 x idx =
     (if list_all (py_index_ok (length x)) idx then Inr (map (py_index x) idx)
      else Inl IndexError)"

definition np_take2 :: "'a list \<Rightarrow> imat \<Rightarrow> error + 'a list list" where
  "np_take2 x idx =
     (if list_all (list_all (py_index_ok (length x))) idx then Inr (map (map (py_index x)) idx)
      else Inl IndexError)"

text \<open>The matrix product \<open>a @ b\<close>, the transpose \<open>a.T\<close>, \<open>a.conj()\<close>, a scalar multiple,
  \<open>np.block([[a, b], [c, d]])\<close> and the two slices \<open>K[0:n, 0:n]\<close> and \<open>K[0:n, n:2 * n]\<close>.\<close>

definition matmul :: "cmat \<Rightarrow> cmat \<Rightarrow> error + cmat" where
  "matmul a b =
     (if ncols a = nrows b
      then Inr (mat (nrows a) (ncols b) (\<lambda>i j. \<Sum>k<ncols a. a ! i ! k * b ! k ! j))
      else Inl ValueError)"

definition mT :: "cmat \<Rightarrow> cmat" where
  "mT a = mat (ncols a) (nrows a) (\<lambda>i j. a ! j ! i)"

definition mconj :: "cmat \<Rightarrow> cmat" where
  "mconj a = map (map cnj) a"

definition smul :: "complex \<Rightarrow> cmat \<Rightarrow> cmat" where
  "smul c a = map (map (\<lambda>x. c * x)) a"

definition mneg :: "cmat \<Rightarrow> cmat" where
  "mneg a = map (map uminus) a"

definition np_block :: "cmat \<Rightarrow> cmat \<Rightarrow> cmat \<Rightarrow> cmat \<Rightarrow> error + cmat" where
  "np_block a b c d =
     (if nrows a = nrows b \<and> nrows c = nrows d \<and> ncols a + ncols b = ncols c + ncols d
      then Inr (map2 (@) a b @ map2 (@) c d)
      else Inl ValueError)"

definition top_left :: "nat \<Rightarrow> cmat \<Rightarrow> cmat" where
  "top_left n K = map (take n) (take n K)"

definition top_right :: "nat \<Rightarrow> cmat \<Rightarrow> cmat" where
  "top_right n K = map (\<lambda>r. take n (drop n r)) (take n K)"

text \<open>
  An array of zero, one or two dimensions, for the moments of \<open>P_loss\<close>, which start as the
  one-dimensional \<open>np.zeros(n)\<close> and become matrices in the first step. \<open>@\<close> follows
  \<open>np.matmul\<close> (a one-dimensional operand is a row on the left and a column on the right;
  a scalar operand raises ValueError), \<open>+\<close> broadcasts.
\<close>

datatype ndarray = Arr0 complex | Arr1 cvec | Arr2 cmat

fun nd_matmul :: "ndarray \<Rightarrow> ndarray \<Rightarrow> error + ndarray" where
  "nd_matmul (Arr2 a) (Arr2 b) = and_then (matmul a b) (\<lambda>c. Inr (Arr2 c))"
| "nd_matmul (Arr2 a) (Arr1 v) =
     (if ncols a = length v
      then Inr (Arr1 (map (\<lambda>i. \<Sum>k<length v. a ! i ! k * v ! k) [0..<nrows a]))
      else Inl ValueError)"
| "nd_matmul (Arr1 v) (Arr2 b) =
     (if length v = nrows b
      then Inr (Arr1 (map (\<lambda>j. \<Sum>k<length v. v ! k * b ! k ! j) [0..<ncols b]))
      else Inl ValueError)"
| "nd_matmul (Arr1 v) (Arr1 w) =
     (if length v = length w then Inr (Arr0 (\<Sum>k<length v. v ! k * w ! k)) else Inl ValueError)"
| "nd_matmul (Arr0 c) y = Inl ValueError"
| "nd_matmul x (Arr0 c) = Inl ValueError"

fun nd_T :: "ndarray \<Rightarrow> ndarray" where
  "nd_T (Arr2 a) = Arr2 (mT a)"
| "nd_T x = x"

fun nd_conj :: "ndarray \<Rightarrow> ndarray" where
  "nd_conj (Arr0 c) = Arr0 (cnj c)"
| "nd_conj (Arr1 v) = Arr1 (map cnj v)"
| "nd_conj (Arr2 a) = Arr2 (mconj a)"

fun nd_smul :: "complex \<Rightarrow> ndarray \<Rightarrow> ndarray" where
  "nd_smul c (Arr0 x) = Arr0 (c * x)"
| "nd_smul c (Arr1 v) = Arr1 (map (\<lambda>x. c * x) v)"
| "nd_smul c (Arr2 a) = Arr2 (smul c a)"

fun nd_rank :: "ndarray \<Rightarrow> nat" where
  "nd_rank (Arr0 c) = 0"
| "nd_rank (Arr1 v) = 1"
| "nd_rank (Arr2 a) = 2"

fun nd_rows :: "ndarray \<Rightarrow> cmat" where
  "nd_rows (Arr0 c) = [[c]]"
| "nd_rows (Arr1 v) = [v]"
| "nd_rows (Arr2 a) = a"

definition nd_of_rows :: "nat \<Rightarrow> cmat \<Rightarrow> ndarray" where
  "nd_of_rows r a = (if r = 0 then Arr0 (a ! 0 ! 0) else if r = 1 then Arr1 (a ! 0) else Arr2 a)"

definition nd_add :: "ndarray \<Rightarrow> ndarray \<Rightarrow> error + ndarray" where
  "nd_add x y =
     and_then (bcast2 (+) (nd_rows x) (nd_rows y))
       (\<lambda>r. Inr (nd_of_rows (max (nd_rank x) (nd_rank y)) r))"

text \<open>The same operators on results, so that an expression reads as in the source:
  the operands are evaluated left to right and the first exception wins.\<close>

definition mm :: "error + ndarray \<Rightarrow> error + ndarray \<Rightarrow> error + ndarray" where
  "mm x y = and_then x (\<lambda>a. and_then y (\<lambda>b. nd_matmul a b))"

definition pl :: "error + ndarray \<Rightarrow> error + ndarray \<Rightarrow> error + ndarray" where
  "pl x y = and_then x (\<lambda>a. and_then y (\<lambda>b. nd_add a b))"

text \<open>A \<open>for _ in range(k)\<close> loop over a state, stopping at the first exception.\<close>

fun for_range :: "nat \<Rightarrow> ('s \<Rightarrow> error + 's) \<Rightarrow> 's \<Rightarrow> error + 's" where
  "for_range 0 body st = Inr st"
| "for_range (Suc k) body st = and_then (body st) (for_range k body)"

section \<open>kerrlib: Fourier transform functions\<close>

definition myfft :: "cvec \<Rightarrow> real \<Rightarrow> error + cvec" where
  "myfft z dz =
     and_then (np_fft z)
       (\<lambda>f. Inr (fftshift (map (\<lambda>c. c * of_real dz / of_real (sqrt (2 * pi))) f)))"

definition myifft :: "cvec \<Rightarrow> real \<Rightarrow> nat \<Rightarrow> error + cvec" where
  "myifft k dk n =
     and_then (np_ifft k)
       (\<lambda>f. Inr (ifftshift (map (\<lambda>c. c * of_real dk * of_nat n / of_real (sqrt (2 * pi))) f)))"

section \<open>The transforms for a spacing that is not finite\<close>

text \<open>
  A float of the source is read as a real number everywhere else. For the behaviour of
  the two transforms on a spacing that is \<open>inf\<close>, \<open>-inf\<close> or \<open>nan\<close>, the spacing is a real
  number or the one value \<open>NonFinite\<close> that stands for these three, and an entry of the
  result is a complex number or \<open>NonFiniteC\<close>, a complex float with a component that is
  not finite. In IEEE arithmetic the product of any complex number with a non-finite
  float has a non-finite component, and so has the product or quotient of such a value
  with a finite number; none of these operations raises. \<open>myfft_ext\<close> and \<open>myifft_ext\<close>
  are the two source functions over these values: the transform of the array, the
  product with the spacing (and with \<open>n\<close>), the quotient by \<open>sqrt(2 pi)\<close>, the shift.
\<close>

datatype npfloat = Finite real | NonFinite

datatype npcomplex = FiniteC complex | NonFiniteC

fun times_float :: "complex \<Rightarrow> npfloat \<Rightarrow> npcomplex" where
  "times_float c (Finite d) = FiniteC (c * of_real d)"
| "times_float c NonFinite = NonFiniteC"

fun times_finite :: "npcomplex \<Rightarrow> complex \<Rightarrow> npcomplex" where
  "times_finite (FiniteC c) r = FiniteC (c * r)"
| "times_finite NonFiniteC r = NonFiniteC"

fun divide_finite :: "npcomplex \<Rightarrow> complex \<Rightarrow> npcomplex" where
  "divide_finite (FiniteC c) r = FiniteC (c / r)"
| "divide_finite NonFiniteC r = NonFiniteC"

definition myfft_ext :: "cvec \<Rightarrow> npfloat \<Rightarrow> error + npcomplex list" where
  "myfft_ext z dz =
     and_then (np_fft z)
       (\<lambda>f. Inr (fftshift (map (\<lambda>c. divide_finite (times_float c dz) (of_real (sqrt (2 * pi)))) f)))"

definition myifft_ext :: "cvec \<Rightarrow> npfloat \<Rightarrow> nat \<Rightarrow> error + npcomplex list" where
  "myifft_ext k dk n =
     and_then (np_ifft k)
       (\<lambda>f. Inr (ifftshift (map (\<lambda>c. divide_finite (times_finite (times_float c dk) (of_nat n))
                                        (of_real (sqrt (2 * pi)))) f)))"

section \<open>kerrlib: split-step operators for the mean field\<close>

text \<open>
  \<open>opD\<close> is the half dispersion and loss step, \<open>opN\<close> the nonlinear step. The scalar
  parameters are Python floats of the source and real numbers here. In \<open>opN\<close> the
  quotient \<open>dt * 1j / TN\<close> is a division of Python scalars and raises ZeroDivisionError
  for \<open>TN = 0\<close>, before any array is touched. Every other division by a parameter is a
  division of a numpy array; it gives \<open>inf\<close> or \<open>nan\<close> for a zero parameter and no
  exception, which is outside this model, so the statements that depend on such a
  quotient assume the parameter nonzero.
\<close>

definition opD :: "cvec \<Rightarrow> real \<Rightarrow> real \<Rightarrow> rvec \<Rightarrow> real \<Rightarrow> error + cvec" where
  "opD u TD G kk dt =
     and_then (np_fft u) (\<lambda>k.
     and_then (bcast1 (*) (map (\<lambda>x. exp (of_real (dt / 2) * (\<i> * of_real (x\<^sup>2) / of_real (2 * TD)))) kk) k) (\<lambda>p.
     and_then (np_ifft p) (\<lambda>r.
     Inr (map (\<lambda>c. c * of_real (exp (dt / 2 * (- G / 2)))) r))))"

definition opN :: "cvec \<Rightarrow> real \<Rightarrow> cvec \<Rightarrow> real \<Rightarrow> error + cvec" where
  "opN u TN ui dt =
     (if TN = 0 then Inl ZeroDivisionError
      else bcast1 (*) (map (\<lambda>c. exp (of_real dt * \<i> / of_real TN * of_real ((cmod c)\<^sup>2))) ui) u)"

section \<open>kerrlib: mean-field evolution\<close>

text \<open>
  \<open>FWHM\<close> returns \<open>X[right_idx] - X[left_idx]\<close> for the index arrays of the sign changes
  of \<open>half_max - Y\<close>; \<open>np.max\<close> of an empty array raises ValueError.
\<close>

definition FWHM :: "rvec \<Rightarrow> rvec \<Rightarrow> error + rvec" where
  "FWHM X Y =
     (if Y = [] then Inl ValueError
      else
        (let half_max = Max (set Y) / 2;
             d = map2 (\<lambda>a b. sgn (half_max - a) - sgn (half_max - b)) (butlast Y) (tl Y);
             left_idx = map int (filter (\<lambda>i. d ! i > 0) [0..<length d]);
             right_idx = map int (filter (\<lambda>i. d ! i < 0) [0..<length d])
         in and_then (np_take1 X right_idx) (\<lambda>xr.
            and_then (np_take1 X left_idx) (\<lambda>xl.
            bcast1 (-) xr xl))))"

text \<open>
  The module namespace of kerrlib.py: the two imports and the functions it defines. A
  name that a function body reads and that is neither local, nor in this namespace, nor
  a builtin raises NameError when the statement runs.
\<close>

datatype pyval = PyStr string | PyObject

definition kerrlib_globals :: "string \<rightharpoonup> pyval" where
  "kerrlib_globals =
     map_of (map (\<lambda>x. (x, PyObject))
       [''np'', ''expm'', ''gaussian'', ''sech'', ''rect'', ''lorentzian'', ''FWHM'',
        ''myfft'', ''myifft'', ''opD'', ''opN'', ''P_mean_field'', ''s'', ''m'', ''A'', ''B'',
        ''Q'', ''P_no_loss'', ''P_loss'', ''P_Nico'', ''norm_check'', ''expected_squeezing_g''])"

definition load_global :: "(string \<rightharpoonup> pyval) \<Rightarrow> string \<Rightarrow> error + pyval" where
  "load_global g x = (case g x of None \<Rightarrow> Inl (NameError x) | Some v \<Rightarrow> Inr v)"

definition P_mean_field_step :: "real \<Rightarrow> real \<Rightarrow> real \<Rightarrow> rvec \<Rightarrow> real \<Rightarrow> cvec \<Rightarrow> error + cvec" where
  "P_mean_field_step TD TN G kk dt u =
     and_then (opD u TD G kk dt) (\<lambda>u1.
     and_then (opN u1 TN u dt) (\<lambda>u2.
     opD u2 TD G kk dt))"

definition P_mean_field ::
  "cvec \<Rightarrow> real \<Rightarrow> real \<Rightarrow> real \<Rightarrow> rvec \<Rightarrow> real \<Rightarrow> rvec \<Rightarrow> int \<Rightarrow> real \<Rightarrow> error + cvec" where
  "P_mean_field u TD TN G zz dz kk N dt =
     and_then (load_global kerrlib_globals ''Dcheck'') (\<lambda>Dcheck.
     and_then (if Dcheck = PyStr ''True''
               then and_then (FWHM zz (map (\<lambda>c. (cmod c)\<^sup>2) u)) (\<lambda>FWHM1. Inr ())
               else Inr ()) (\<lambda>_.
     for_range (nat N) (P_mean_field_step TD TN G kk dt) u))"

section \<open>kerrlib: matrices for the fluctuation evolution\<close>

definition s :: "cvec \<Rightarrow> real \<Rightarrow> real \<Rightarrow> error + cvec" where
  "s u TN dz = and_then (myfft (map (\<lambda>c. c\<^sup>2) u) dz) (\<lambda>f. Inr (map (\<lambda>c. c / of_real TN) f))"

definition m :: "cvec \<Rightarrow> real \<Rightarrow> real \<Rightarrow> error + cvec" where
  "m u TN dz =
     and_then (myfft (map (\<lambda>c. of_real ((cmod c)\<^sup>2)) u) dz) (\<lambda>f. Inr (map (\<lambda>c. c / of_real TN) f))"

definition A :: "cvec \<Rightarrow> real \<Rightarrow> real \<Rightarrow> real \<Rightarrow> rvec \<Rightarrow> real \<Rightarrow> imat \<Rightarrow> nat \<Rightarrow> error + cmat" where
  "A u TD TN dz ks dk im n =
     and_then (m u TN dz) (\<lambda>mk.
     and_then (np_full n (map (\<lambda>x. of_real (x\<^sup>2 / (2 * TD))) ks)) (\<lambda>d.
     and_then (np_take2 mk im) (\<lambda>g.
     bcast2 (+) (np_diag d) (map (map (\<lambda>c. of_real (2 * dk) * c / of_real (sqrt (2 * pi)))) g))))"

definition B :: "cvec \<Rightarrow> real \<Rightarrow> real \<Rightarrow> real \<Rightarrow> imat \<Rightarrow> error + cmat" where
  "B u TN dz dk ip =
     and_then (s u TN dz) (\<lambda>sk.
     and_then (np_take2 sk ip) (\<lambda>g.
     Inr (map (map (\<lambda>c. of_real dk * c / of_real (sqrt (2 * pi)))) g)))"

definition Q ::
  "cvec \<Rightarrow> real \<Rightarrow> real \<Rightarrow> real \<Rightarrow> rvec \<Rightarrow> real \<Rightarrow> imat \<Rightarrow> imat \<Rightarrow> nat \<Rightarrow> error + cmat" where
  "Q u TD TN dz ks dk im ip n =
     and_then (A u TD TN dz ks dk im n) (\<lambda>a.
     and_then (B u TN dz dk ip) (\<lambda>b.
     np_block a b (mneg (mT (mconj b))) (mneg (mconj a))))"

section \<open>kerrlib: the three propagation variants\<close>

text \<open>
  \<open>scipy.linalg.expm\<close> is a library function and a parameter \<open>expm\<close> of the model. The
  flags \<open>UWcheck\<close> and \<open>MNcheck\<close> only print; the model is the code with both at their
  default. The step count \<open>tf\<close> is a Python int: \<open>range(tf)\<close> runs \<open>nat tf\<close> times.
\<close>

definition P_no_loss_step ::
  "(cmat \<Rightarrow> cmat) \<Rightarrow> real \<Rightarrow> real \<Rightarrow> real \<Rightarrow> rvec \<Rightarrow> rvec \<Rightarrow> real \<Rightarrow> imat \<Rightarrow> imat \<Rightarrow> real \<Rightarrow> nat
     \<Rightarrow> cvec \<times> cmat \<Rightarrow> error + cvec \<times> cmat" where
  "P_no_loss_step expm TD TN dz kk ks dk im ip dt n st =
     (case st of (u, K) \<Rightarrow>
        and_then (opD u TD 0 kk dt) (\<lambda>u1.
        and_then (opN u1 TN u dt) (\<lambda>u2.
        and_then (opD u2 TD 0 kk dt) (\<lambda>u3.
        and_then (Q u3 TD TN dz ks dk im ip n) (\<lambda>q.
        and_then (matmul (expm (smul (\<i> * of_real dt) q)) K) (\<lambda>K'.
        Inr (u3, K')))))))"

definition P_no_loss ::
  "(cmat \<Rightarrow> cmat) \<Rightarrow> cvec \<Rightarrow> real \<Rightarrow> real \<Rightarrow> real \<Rightarrow> rvec \<Rightarrow> rvec \<Rightarrow> real \<Rightarrow> imat \<Rightarrow> imat \<Rightarrow> int \<Rightarrow> real \<Rightarrow> nat
     \<Rightarrow> error + cvec \<times> cmat \<times> cmat" where
  "P_no_loss expm u TD TN dz kk ks dk im ip tf dt n =
     and_then (for_range (nat tf) (P_no_loss_step expm TD TN dz kk ks dk im ip dt n)
                 (u, np_identity (2 * n))) (\<lambda>st.
     case st of (u', K) \<Rightarrow>
       (let U = top_left n K; W = top_right n K in
        and_then (matmul U (mT W)) (\<lambda>M.
        and_then (matmul (mconj W) (mT W)) (\<lambda>N.
        Inr (u', M, N)))))"

text \<open>The update of the moments in the loop of \<open>P_loss\<close>: the assignment to \<open>M\<close>, then the
  assignment to \<open>N\<close>, then the two scalings.\<close>

definition P_loss_moments ::
  "ndarray \<Rightarrow> ndarray \<Rightarrow> real \<Rightarrow> real \<Rightarrow> ndarray \<Rightarrow> ndarray \<Rightarrow> error + ndarray \<times> ndarray" where
  "P_loss_moments U W G dt M N =
     and_then
       (pl (pl (pl (pl (mm (mm (Inr U) (Inr M)) (Inr (nd_T U)))
                       (mm (mm (Inr W) (Inr (nd_conj M))) (Inr (nd_T W))))
                   (mm (mm (Inr W) (Inr N)) (Inr (nd_T U))))
               (mm (mm (Inr U) (Inr (nd_T N))) (Inr (nd_T W))))
           (mm (Inr U) (Inr (nd_T W)))) (\<lambda>M.
     and_then
       (pl (pl (pl (pl (mm (mm (Inr (nd_conj W)) (Inr M)) (Inr (nd_T U)))
                       (mm (mm (Inr (nd_conj U)) (Inr (nd_conj M))) (Inr (nd_T W))))
                   (mm (mm (Inr (nd_conj U)) (Inr N)) (Inr (nd_T U))))
               (mm (mm (Inr (nd_conj W)) (Inr (nd_T N))) (Inr (nd_T W))))
           (mm (Inr (nd_conj W)) (Inr (nd_T W)))) (\<lambda>N.
     Inr (nd_smul (of_real (1 - G * dt)) M, nd_smul (of_real (1 - G * dt)) N)))"

definition P_loss_step ::
  "(cmat \<Rightarrow> cmat) \<Rightarrow> real \<Rightarrow> real \<Rightarrow> real \<Rightarrow> real \<Rightarrow> rvec \<Rightarrow> rvec \<Rightarrow> real \<Rightarrow> imat \<Rightarrow> imat \<Rightarrow> real \<Rightarrow> nat
     \<Rightarrow> cvec \<times> ndarray \<times> ndarray \<Rightarrow> error + cvec \<times> ndarray \<times> ndarray" where
  "P_loss_step expm TD TN G dz kk ks dk im ip dt n st =
     (case st of (u, M, N) \<Rightarrow>
        and_then (opD u TD G kk dt) (\<lambda>u1.
        and_then (opN u1 TN u dt) (\<lambda>u2.
        and_then (opD u2 TD G kk dt) (\<lambda>u3.
        and_then (Q u3 TD TN dz ks dk im ip n) (\<lambda>q.
        (let K = expm (smul (\<i> * of_real dt) q);
             U = Arr2 (top_left n K);
             W = Arr2 (top_right n K)
         in and_then (P_loss_moments U W G dt M N) (\<lambda>MN.
            case MN of (M', N') \<Rightarrow> Inr (u3, M', N'))))))))"

definition P_loss ::
  "(cmat \<Rightarrow> cmat) \<Rightarrow> cvec \<Rightarrow> real \<Rightarrow> real \<Rightarrow> real \<Rightarrow> real \<Rightarrow> rvec \<Rightarrow> rvec \<Rightarrow> real \<Rightarrow> imat \<Rightarrow> imat \<Rightarrow> int \<Rightarrow> real \<Rightarrow> nat
     \<Rightarrow> error + cvec \<times> ndarray \<times> ndarray" where
  "P_loss expm u TD TN G dz kk ks dk im ip tf dt n =
     for_range (nat tf) (P_loss_step expm TD TN G dz kk ks dk im ip dt n)
       (u, Arr1 (np_zeros n), Arr1 (np_zeros n))"

definition P_Nico_step ::
  "(cmat \<Rightarrow> cmat) \<Rightarrow> real \<Rightarrow> real \<Rightarrow> real \<Rightarrow> real \<Rightarrow> rvec \<Rightarrow> rvec \<Rightarrow> real \<Rightarrow> imat \<Rightarrow> imat \<Rightarrow> real \<Rightarrow> nat
     \<Rightarrow> cvec \<times> cmat \<Rightarrow> error + cvec \<times> cmat" where
  "P_Nico_step expm TD TN G dz kk ks dk im ip dt n st =
     (case st of (u, K) \<Rightarrow>
        and_then (opD u TD G kk dt) (\<lambda>u1.
        and_then (opN u1 TN u dt) (\<lambda>u2.
        and_then (opD u2 TD G kk dt) (\<lambda>u3.
        and_then (Q u3 TD TN dz ks dk im ip n) (\<lambda>q.
        and_then (matmul (expm (smul (\<i> * of_real dt) q)) K) (\<lambda>K'.
        Inr (u3, K')))))))"

definition P_Nico ::
  "(cmat \<Rightarrow> cmat) \<Rightarrow> cvec \<Rightarrow> real \<Rightarrow> real \<Rightarrow> real \<Rightarrow> real \<Rightarrow> rvec \<Rightarrow> rvec \<Rightarrow> real \<Rightarrow> imat \<Rightarrow> imat \<Rightarrow> int \<Rightarrow> real \<Rightarrow> nat
     \<Rightarrow> error + cvec \<times> cmat \<times> cmat" where
  "P_Nico expm u TD TN G dz kk ks dk im ip tf dt n =
     and_then (for_range (nat tf) (P_Nico_step expm TD TN G dz kk ks dk im ip dt n)
                 (u, np_identity (2 * n))) (\<lambda>st.
     case st of (u', K) \<Rightarrow>
       (let U = top_left n K; W = top_right n K in
        and_then (matmul U (mT W)) (\<lambda>M.
        and_then (matmul (mconj W) (mT W)) (\<lambda>N.
        Inr (u', smul (of_real (exp (- G * dt * of_int tf))) M,
                 smul (of_real (exp (- G * dt * of_int tf))) N)))))"

section \<open>QSS: the grids and the index tables of the driver\<close>

text \<open>
  \<open>qss.__init__\<close> builds the real-space grid with \<open>np.linspace\<close>, the frequency grid
  with \<open>np.fft.fftfreq\<close> and reads \<open>zz[1]\<close> and \<open>kk[1]\<close>, which raises IndexError for
  fewer than two points. \<open>qss.evolution\<close> builds the tables \<open>im\<close> and \<open>ip\<close> from
  \<open>np.meshgrid(ks, ks) / dk\<close> with \<open>np.rint\<close> (round half to even), \<open>np.clip\<close> and
  \<open>astype(int)\<close> (truncation towards zero).
\<close>

definition np_linspace :: "real \<Rightarrow> real \<Rightarrow> nat \<Rightarrow> rvec" where
  "np_linspace start stop num =
     map (\<lambda>i. start + real i * ((stop - start) / real (num - 1))) [0..<num]"

definition np_fftfreq :: "nat \<Rightarrow> real \<Rightarrow> rvec" where
  "np_fftfreq n d =
     map (\<lambda>k. real_of_int k * (1 / (real n * d)))
       (map int [0..<nat ((int n - 1) div 2 + 1)] @ map (\<lambda>i. int i - int (n div 2)) [0..<n div 2])"

definition np_rint :: "real \<Rightarrow> real" where
  "np_rint x =
     (let f = \<lfloor>x\<rfloor>; r = x - of_int f
      in of_int (if r < 1 / 2 then f else if 1 / 2 < r then f + 1 else if even f then f else f + 1))"

definition np_clip :: "real \<Rightarrow> real \<Rightarrow> real \<Rightarrow> real" where
  "np_clip x lo hi = min (max x lo) hi"

definition astype_int :: "real \<Rightarrow> int" where
  "astype_int x = (if 0 \<le> x then \<lfloor>x\<rfloor> else \<lceil>x\<rceil>)"

record qss =
  qss_zf :: real
  qss_n :: nat
  qss_zz :: rvec
  qss_dz :: real
  qss_kk :: rvec
  qss_ks :: rvec
  qss_dk :: real

definition qss_init :: "real \<Rightarrow> nat \<Rightarrow> error + qss" where
  "qss_init zf n =
     (let zz = np_linspace (- zf) zf n in
      if n < 2 then Inl IndexError
      else
        (let dz = zz ! 1 - zz ! 0;
             kk = map (\<lambda>x. x * (2 * pi)) (np_fftfreq n dz);
             ks = fftshift kk;
             dk = kk ! 1 - kk ! 0
         in Inr \<lparr>qss_zf = zf, qss_n = n, qss_zz = zz, qss_dz = dz, qss_kk = kk, qss_ks = ks,
                  qss_dk = dk\<rparr>))"

definition qss_im :: "qss \<Rightarrow> imat" where
  "qss_im q =
     mat (qss_n q) (qss_n q) (\<lambda>i j.
       astype_int (np_clip (np_rint (qss_ks q ! j / qss_dk q - qss_ks q ! i / qss_dk q)
                              + (real (qss_n q) - 1) / 2) 0 (real (qss_n q) - 1)))"

definition qss_ip :: "qss \<Rightarrow> imat" where
  "qss_ip q =
     mat (qss_n q) (qss_n q) (\<lambda>i j.
       astype_int (np_clip (np_rint (qss_ks q ! j / qss_dk q + qss_ks q ! i / qss_dk q)
                              + (real (qss_n q) - 1) / 2) 0 (real (qss_n q) - 1)))"

section \<open>QSS: the pump field of the driver\<close>

text \<open>
  The pulse shapes of kerrlib, and the first block of \<open>qss.evolution\<close> (the lines up to
  the length check): the argument \<open>u\<close> is \<open>None\<close>, the name of a pulse shape or an array;
  a name that is not one of the four raises ValueError, and so does a field whose length
  is not \<open>n\<close>. The block returns the field and the rescaled pulse width \<open>T0\<close>. Everything
  that \<open>evolution\<close> does afterwards (the derived parameters, the index tables, the call
  of \<open>P_no_loss\<close> or \<open>P_loss\<close>) runs only if this block returns; in \<open>evolution\<close> it is the
  parameter \<open>rest\<close>, a function of the field and the width.
\<close>

definition gaussian :: "rvec \<Rightarrow> cvec" where
  "gaussian z = map (\<lambda>x. of_real (exp (- x\<^sup>2 / 2))) z"

definition sech :: "rvec \<Rightarrow> cvec" where
  "sech z = map (\<lambda>x. of_real (1 / cosh x)) z"

definition rect :: "rvec \<Rightarrow> cvec" where
  "rect z = map (\<lambda>x. if \<bar>x\<bar> \<le> 0.5 * (2 * sqrt (2 * ln 2)) then 1 else 0) z"

definition lorentzian :: "rvec \<Rightarrow> cvec" where
  "lorentzian z = map (\<lambda>x. of_real (1 / sqrt (1 + x\<^sup>2))) z"

datatype pump = PumpNone | PumpStr string | PumpArray cvec

definition evolution_pump :: "qss \<Rightarrow> real \<Rightarrow> pump \<Rightarrow> error + cvec \<times> real" where
  "evolution_pump q T0 u =
     and_then
       (case u of
          PumpNone \<Rightarrow> Inr (gaussian (qss_zz q), T0 / (2 * sqrt (ln 2)))
        | PumpStr name \<Rightarrow>
            (if name = ''Gaussian'' then Inr (gaussian (qss_zz q), T0 / (2 * sqrt (ln 2)))
             else if name = ''Rect'' then Inr (rect (qss_zz q), T0)
             else if name = ''Sech'' then Inr (sech (qss_zz q), T0 / (2 * sqrt (1 + ln (sqrt 2))))
             else if name = ''Lorentzian'' then Inr (lorentzian (qss_zz q), T0)
             else Inl ValueError)
        | PumpArray v \<Rightarrow> Inr (v, T0))
       (\<lambda>r. if length (fst r) \<noteq> qss_n q then Inl ValueError else Inr r)"

definition evolution :: "qss \<Rightarrow> real \<Rightarrow> pump \<Rightarrow> (cvec \<Rightarrow> real \<Rightarrow> error + 'a) \<Rightarrow> error + 'a" where
  "evolution q T0 u rest = and_then (evolution_pump q T0 u) (\<lambda>r. rest (fst r) (snd r))"

section \<open>Reference computations of the specification\<close>

text \<open>
  The specification describes the lossless variant as an accumulated transfer matrix:
  each step advances the field by the half dispersion/loss step, the nonlinear step and a
  second half step, builds the generator from the new field and multiplies the transfer
  matrix from the left by the exponential; after the loop \<open>U\<close> and \<open>W\<close> are the upper
  blocks and \<open>M = U W\<^sup>T\<close>, \<open>N = conj(W) W\<^sup>T\<close>. \<open>transfer_moments\<close> follows these words,
  with the loss rate of the field steps as a parameter; it is what the code of
  \<open>P_no_loss\<close> and \<open>P_Nico\<close> is compared with.
\<close>

definition transfer_step ::
  "(cmat \<Rightarrow> cmat) \<Rightarrow> real \<Rightarrow> real \<Rightarrow> real \<Rightarrow> real \<Rightarrow> rvec \<Rightarrow> rvec \<Rightarrow> real \<Rightarrow> imat \<Rightarrow> imat \<Rightarrow> real \<Rightarrow> nat
     \<Rightarrow> cvec \<times> cmat \<Rightarrow> error + cvec \<times> cmat" where
  "transfer_step expm TD TN G dz kk ks dk im ip dt n st =
     and_then (P_mean_field_step TD TN G kk dt (fst st)) (\<lambda>u'.
     and_then (Q u' TD TN dz ks dk im ip n) (\<lambda>q.
     and_then (matmul (expm (smul (\<i> * of_real dt) q)) (snd st)) (\<lambda>K'.
     Inr (u', K'))))"

definition transfer_moments ::
  "(cmat \<Rightarrow> cmat) \<Rightarrow> cvec \<Rightarrow> real \<Rightarrow> real \<Rightarrow> real \<Rightarrow> real \<Rightarrow> rvec \<Rightarrow> rvec \<Rightarrow> real \<Rightarrow> imat \<Rightarrow> imat \<Rightarrow> nat \<Rightarrow> real \<Rightarrow> nat
     \<Rightarrow> error + cvec \<times> cmat \<times> cmat" where
  "transfer_moments expm u TD TN G dz kk ks dk im ip steps dt n =
     and_then (for_range steps (transfer_step expm TD TN G dz kk ks dk im ip dt n)
                 (u, np_identity (2 * n))) (\<lambda>st.
     and_then (matmul (top_left n (snd st)) (mT (top_right n (snd st)))) (\<lambda>M.
     and_then (matmul (mconj (top_right n (snd st))) (mT (top_right n (snd st)))) (\<lambda>N.
     Inr (fst st, M, N))))"

text \<open>
  The transition of the specification, step by step. After \<open>k\<close> steps the field is
  \<open>field_after k\<close>: a step applies to the field \<open>v\<close> of the step before the half
  dispersion/loss step, then the nonlinear step with \<open>v\<close> itself as reference field, then
  the second half dispersion/loss step. The transfer matrix \<open>transfer_after k\<close> starts as
  the identity and is multiplied in step \<open>k + 1\<close> from the left by the exponential of the
  generator built from the field after that step, \<open>field_after (k + 1)\<close>. The moments of
  the lossy variant, \<open>moments_after k\<close>, start as two zero vectors and are updated in step
  \<open>k + 1\<close> with the upper blocks of the exponential of that same generator. These follow
  the words of the specification; the three loops of the code are compared with them.
\<close>

fun field_after :: "real \<Rightarrow> real \<Rightarrow> real \<Rightarrow> rvec \<Rightarrow> real \<Rightarrow> cvec \<Rightarrow> nat \<Rightarrow> error + cvec" where
  "field_after TD TN G kk dt u 0 = Inr u"
| "field_after TD TN G kk dt u (Suc k) =
     and_then (field_after TD TN G kk dt u k) (\<lambda>v.
     and_then (opD v TD G kk dt) (\<lambda>h.
     and_then (opN h TN v dt) (\<lambda>w.
     opD w TD G kk dt)))"

fun transfer_after ::
  "(cmat \<Rightarrow> cmat) \<Rightarrow> real \<Rightarrow> real \<Rightarrow> real \<Rightarrow> real \<Rightarrow> rvec \<Rightarrow> rvec \<Rightarrow> real \<Rightarrow> imat \<Rightarrow> imat \<Rightarrow> real \<Rightarrow> nat
     \<Rightarrow> cvec \<Rightarrow> nat \<Rightarrow> error + cmat" where
  "transfer_after expm TD TN G dz kk ks dk im ip dt n u 0 = Inr (np_identity (2 * n))"
| "transfer_after expm TD TN G dz kk ks dk im ip dt n u (Suc k) =
     and_then (transfer_after expm TD TN G dz kk ks dk im ip dt n u k) (\<lambda>K.
     and_then (field_after TD TN G kk dt u (Suc k)) (\<lambda>v.
     and_then (Q v TD TN dz ks dk im ip n) (\<lambda>q.
     matmul (expm (smul (\<i> * of_real dt) q)) K)))"

fun moments_after ::
  "(cmat \<Rightarrow> cmat) \<Rightarrow> real \<Rightarrow> real \<Rightarrow> real \<Rightarrow> real \<Rightarrow> rvec \<Rightarrow> rvec \<Rightarrow> real \<Rightarrow> imat \<Rightarrow> imat \<Rightarrow> real \<Rightarrow> nat
     \<Rightarrow> cvec \<Rightarrow> nat \<Rightarrow> error + ndarray \<times> ndarray" where
  "moments_after expm TD TN G dz kk ks dk im ip dt n u 0 = Inr (Arr1 (np_zeros n), Arr1 (np_zeros n))"
| "moments_after expm TD TN G dz kk ks dk im ip dt n u (Suc k) =
     and_then (moments_after expm TD TN G dz kk ks dk im ip dt n u k) (\<lambda>MN.
     and_then (field_after TD TN G kk dt u (Suc k)) (\<lambda>v.
     and_then (Q v TD TN dz ks dk im ip n) (\<lambda>q.
     P_loss_moments (Arr2 (top_left n (expm (smul (\<i> * of_real dt) q))))
       (Arr2 (top_right n (expm (smul (\<i> * of_real dt) q)))) G dt (fst MN) (snd MN))))"

text \<open>
  A matrix \<open>X\<close> whose square is a multiple of the identity, \<open>X\<^sup>2 = - \<theta>\<^sup>2 I\<close>, has the
  exponential \<open>cos \<theta> I + (sin \<theta> / \<theta>) X\<close> (and \<open>I + X\<close> for \<open>\<theta> = 0\<close>): the series of the
  exponential, summed. \<open>expm_sq_scalar\<close> is this function, with \<open>- \<theta>\<^sup>2\<close> read from the
  first entry of the square; it stands for \<open>expm\<close> where a statement is evaluated on an
  input whose generators have such a square.
\<close>

definition expm_sq_scalar :: "cmat \<Rightarrow> cmat" where
  "expm_sq_scalar X =
     (let \<theta> = csqrt (- (\<Sum>k<ncols X. X ! 0 ! k * X ! k ! 0))
      in mat (nrows X) (nrows X) (\<lambda>i j.
           (if i = j then cos \<theta> else 0) + (if \<theta> = 0 then 1 else sin \<theta> / \<theta>) * X ! i ! j))"

text \<open>
  The exponential of a diagonal matrix is the diagonal matrix of the exponentials of its
  entries. \<open>expm_diag\<close> is this function; it stands for \<open>expm\<close> where a statement is
  evaluated on an input whose generator is diagonal.
\<close>

definition expm_diag :: "cmat \<Rightarrow> cmat" where
  "expm_diag X = mat (nrows X) (nrows X) (\<lambda>i j. if i = j then exp (X ! i ! i) else 0)"

text \<open>
  The moment recursion as claim C2 words it: both new moments are computed from the
  moments of before the step, then both are scaled. It is what \<open>P_loss_moments\<close> is
  compared with.
\<close>

definition claimed_moments ::
  "ndarray \<Rightarrow> ndarray \<Rightarrow> real \<Rightarrow> real \<Rightarrow> ndarray \<Rightarrow> ndarray \<Rightarrow> error + ndarray \<times> ndarray" where
  "claimed_moments U W G dt M N =
     and_then
       (pl (pl (pl (pl (mm (mm (Inr U) (Inr M)) (Inr (nd_T U)))
                       (mm (mm (Inr W) (Inr (nd_conj M))) (Inr (nd_T W))))
                   (mm (mm (Inr W) (Inr N)) (Inr (nd_T U))))
               (mm (mm (Inr U) (Inr (nd_T N))) (Inr (nd_T W))))
           (mm (Inr U) (Inr (nd_T W)))) (\<lambda>M'.
     and_then
       (pl (pl (pl (pl (mm (mm (Inr (nd_conj W)) (Inr M)) (Inr (nd_T U)))
                       (mm (mm (Inr (nd_conj U)) (Inr (nd_conj M))) (Inr (nd_T W))))
                   (mm (mm (Inr (nd_conj U)) (Inr N)) (Inr (nd_T U))))
               (mm (mm (Inr (nd_conj W)) (Inr (nd_T N))) (Inr (nd_T W))))
           (mm (Inr (nd_conj W)) (Inr (nd_T W)))) (\<lambda>N'.
     Inr (nd_smul (of_real (1 - G * dt)) M', nd_smul (of_real (1 - G * dt)) N')))"

section \<open>Predicates used in the statements\<close>

text \<open>
  An index table for a grid of \<open>n\<close> points is an \<open>n\<close> by \<open>n\<close> array of integers in
  \<open>[0, n - 1]\<close>, as the docstrings of kerrlib require of \<open>im\<close> and \<open>ip\<close>. A square matrix
  of size \<open>k\<close> is diagonal when it equals the diagonal matrix of its own diagonal.
\<close>

definition index_table :: "nat \<Rightarrow> imat \<Rightarrow> bool" where
  "index_table n t =
     (length t = n \<and> list_all (\<lambda>r. length r = n \<and> list_all (\<lambda>i. 0 \<le> i \<and> i < int n) r) t)"

definition is_diag :: "nat \<Rightarrow> cmat \<Rightarrow> bool" where
  "is_diag k X = (X = mat k k (\<lambda>i j. if i = j then X ! i ! i else 0))"

text \<open>
  The sum that \<open>np.fft.fft\<close> computes, read at an arbitrary integer frequency \<open>z\<close>; it
  has period \<open>length a\<close> in \<open>z\<close>.
\<close>

definition dft_at :: "cvec \<Rightarrow> int \<Rightarrow> complex" where
  "dft_at a z = (\<Sum>j<length a. a ! j * cis (- (2 * pi * real j * real_of_int z / real (length a))))"

text \<open>
  A square array of size \<open>k\<close>, and the shapes that the moments of \<open>P_loss\<close> take on a grid
  of \<open>n\<close> points: a vector of length \<open>n\<close> (the start value) or an \<open>n\<close> by \<open>n\<close> matrix.
\<close>

definition is_square :: "nat \<Rightarrow> 'a list list \<Rightarrow> bool" where
  "is_square k X = (length X = k \<and> list_all (\<lambda>r. length r = k) X)"

fun nd_shape :: "nat \<Rightarrow> ndarray \<Rightarrow> bool" where
  "nd_shape n (Arr0 c) = False"
| "nd_shape n (Arr1 v) = (length v = n)"
| "nd_shape n (Arr2 a) = is_square n a"


section \<open>Basic facts\<close>

lemma and_then_Inr [simp]: "and_then (Inr v) f = f v"
  by (simp add: and_then_def)

lemma and_then_Inl [simp]: "and_then (Inl e) f = Inl e"
  by (simp add: and_then_def)

lemma and_then_eq_Inr: "and_then r f = Inr y \<longleftrightarrow> (\<exists>x. r = Inr x \<and> f x = Inr y)"
  by (cases r) simp_all

lemma upt_2: "[0..<2] = [0, Suc 0]"
  by (simp add: upt_rec)

lemma lessThan_2_sum: "(\<Sum>j<(2::nat). f j) = f 0 + f (Suc 0)"
  by (simp add: numeral_2_eq_2)

lemma sqrt_2pi_sq: "complex_of_real (sqrt (2 * pi)) * complex_of_real (sqrt (2 * pi)) = 2 * of_real pi"
proof -
  have "complex_of_real (sqrt (2 * pi)) * complex_of_real (sqrt (2 * pi))
        = complex_of_real (sqrt (2 * pi) * sqrt (2 * pi))"
    by (simp only: of_real_mult)
  also have "sqrt (2 * pi) * sqrt (2 * pi) = 2 * pi"
    by simp
  finally show ?thesis
    by simp
qed

section \<open>The transform pair\<close>

lemma np_fft_unit2: "np_fft [1, 0] = Inr [1, 1]"
  by (simp add: np_fft_def upt_2 lessThan_2_sum)

lemma myfft_unit2:
  "myfft [1, 0] 1 = Inr [1 / of_real (sqrt (2 * pi)), 1 / of_real (sqrt (2 * pi))]"
  by (simp add: myfft_def np_fft_unit2 fftshift_def np_roll_def upt_2)

lemma np_ifft_const2: "np_ifft [c, c] = Inr [c, 0]"
  by (simp add: np_ifft_def upt_2 lessThan_2_sum)

lemma upt_3: "[0..<3] = [0, Suc 0, Suc (Suc 0)]"
  by (simp add: upt_rec)

lemma lessThan_3_sum: "(\<Sum>j<(3::nat). f j) = f 0 + f (Suc 0) + f (Suc (Suc 0))"
  by (simp add: numeral_3_eq_3)

lemma cis_third: "cis (2 * pi / 3) = Complex (- 1 / 2) (sqrt 3 / 2)"
  by (simp add: complex_eq_iff cos_120 sin_120)

lemma cis_two_thirds: "cis (4 * pi / 3) = Complex (- 1 / 2) (- sqrt 3 / 2)"
proof -
  have "cis (4 * pi / 3) = cis (2 * pi / 3) * cis (2 * pi / 3)"
    by (simp add: cis_mult)
  then show ?thesis
    by (simp add: cis_third complex_eq_iff)
qed

lemma cis_four_thirds: "cis (8 * pi / 3) = Complex (- 1 / 2) (sqrt 3 / 2)"
proof -
  have "8 * pi / 3 = 2 * pi / 3 + 2 * pi"
    by simp
  then have "cis (8 * pi / 3) = cis (2 * pi / 3) * cis (2 * pi)"
    by (simp only: cis_mult)
  then show ?thesis
    by (simp add: cis_third)
qed

lemma roots_sum: "1 + cis (2 * pi / 3) + cis (4 * pi / 3) = 0" "1 + cis (4 * pi / 3) + cis (8 * pi / 3) = 0"
  by (simp_all add: cis_third cis_two_thirds cis_four_thirds complex_eq_iff)

lemma np_fft_unit3: "np_fft [1, 0, 0] = Inr [1, 1, 1]"
  by (simp add: np_fft_def upt_3 lessThan_3_sum)

lemma myfft_unit3:
  "myfft [1, 0, 0] 1 = Inr [1 / of_real (sqrt (2 * pi)), 1 / of_real (sqrt (2 * pi)), 1 / of_real (sqrt (2 * pi))]"
  by (simp add: myfft_def np_fft_unit3 fftshift_def np_roll_def upt_3)

lemma np_ifft_const3: "np_ifft [c, c, c] = Inr [c, 0, 0]"
proof -
  have a: "c + c * cis (2 * pi / 3) + c * cis (4 * pi / 3) = 0"
    using roots_sum(1) by (metis distrib_left mult.right_neutral mult_zero_right)
  have b: "c + c * cis (4 * pi / 3) + c * cis (8 * pi / 3) = 0"
    using roots_sum(2) by (metis distrib_left mult.right_neutral mult_zero_right)
  show ?thesis
    using a b by (simp add: np_ifft_def upt_3 lessThan_3_sum)
qed

text \<open>
  C1. The round trip \<open>myifft(myfft(x, dz), dk, n)\<close> with \<open>dk = 2 pi / (n dz)\<close> is claimed to
  return \<open>x\<close>. With \<open>dz = 1\<close> the code returns \<open>[0, 0, 1]\<close> on \<open>x = [1, 0, 0]\<close> and
  \<open>[0, 1]\<close> on \<open>x = [1, 0]\<close>: \<open>myifft\<close> applies \<open>ifftshift\<close> after the inverse transform
  instead of before it, so the shift of \<open>myfft\<close> is not undone.
\<close>

theorem myifft_myfft_not_identity:
  "and_then (myfft [1, 0, 0] 1) (\<lambda>k. myifft k (2 * pi / (3 * 1)) 3) = Inr [0, 0, 1]
   \<and> and_then (myfft [1, 0] 1) (\<lambda>k. myifft k (2 * pi / (2 * 1)) 2) = Inr [0, 1]"
  by (simp add: myfft_unit3 myfft_unit2 myifft_def np_ifft_const3 np_ifft_const2 ifftshift_def
      np_roll_def upt_3 upt_2 sqrt_2pi_sq)

section \<open>The mean-field entry point\<close>

lemma Dcheck_undefined: "load_global kerrlib_globals ''Dcheck'' = Inl (NameError ''Dcheck'')"
  by (simp add: load_global_def kerrlib_globals_def)

text \<open>
  C10. \<open>P_mean_field\<close> reads the global \<open>Dcheck\<close> in its first statement. The module never
  defines it, so every call raises NameError before the loop is entered and no call
  returns a field.
\<close>

theorem P_mean_field_NameError:
  "P_mean_field u TD TN G zz dz kk N dt = Inl (NameError ''Dcheck'')"
  by (simp add: P_mean_field_def Dcheck_undefined)

section \<open>Matrices as lists of rows\<close>

lemma length_mat [simp]: "length (mat r c f) = r"
  by (simp add: mat_def)

lemma nrows_mat [simp]: "nrows (mat r c f) = r"
  by (simp add: nrows_def)

lemma nth_mat [simp]: "i < r \<Longrightarrow> mat r c f ! i = map (f i) [0..<c]"
  by (simp add: mat_def)

lemma ncols_mat [simp]: "0 < r \<Longrightarrow> ncols (mat r c f) = c"
  by (cases r) (simp_all add: ncols_def mat_def upt_conv_Cons del: upt_Suc)

lemma ncols_mat_0 [simp]: "ncols (mat 0 c f) = 0"
  by (simp add: ncols_def mat_def)

lemma ncols_mat_square [simp]: "ncols (mat n n f) = n"
  by (cases "n = 0") simp_all

lemma nth_nth_mat [simp]: "i < r \<Longrightarrow> j < c \<Longrightarrow> mat r c f ! i ! j = f i j"
  by simp

lemma mat_cong:
  "r = r' \<Longrightarrow> c = c' \<Longrightarrow> (\<And>i j. i < r' \<Longrightarrow> j < c' \<Longrightarrow> f i j = g i j) \<Longrightarrow> mat r c f = mat r' c' g"
  by (simp add: mat_def)

lemma drop_take_tab:
  assumes "2 * n \<le> c"
  shows "take n (drop n (map g [0..<c])) = map (\<lambda>j. g (n + j)) [0..<n]"
proof -
  have "take n (drop n (map g [0..<c])) = map g (take n [n..<c])"
    by (simp add: drop_map take_map)
  also have "take n [n..<c] = [n..<n + n]"
    using assms by simp
  also have "[n..<n + n] = map (\<lambda>j. n + j) [0..<n]"
    by (simp add: map_add_upt add.commute)
  finally show ?thesis
    by (simp add: comp_def)
qed

lemma top_left_mat: "n \<le> r \<Longrightarrow> n \<le> c \<Longrightarrow> top_left n (mat r c f) = mat n n f"
  by (simp add: top_left_def mat_def take_map)

lemma top_right_mat:
  "n \<le> r \<Longrightarrow> 2 * n \<le> c \<Longrightarrow> top_right n (mat r c f) = mat n n (\<lambda>i j. f i (n + j))"
  by (simp add: top_right_def mat_def take_map drop_take_tab)

lemma nrows_identity [simp]: "nrows (np_identity n) = n"
  by (simp add: np_identity_def)

lemma ncols_identity [simp]: "ncols (np_identity n) = n"
  by (simp add: np_identity_def)

lemma top_left_identity: "top_left n (np_identity (2 * n)) = np_identity n"
  by (simp add: np_identity_def top_left_mat)

lemma top_right_identity: "top_right n (np_identity (2 * n)) = mat n n (\<lambda>i j. 0)"
  by (simp add: np_identity_def top_right_mat cong: mat_cong)

lemma mT_mat: "0 < r \<Longrightarrow> mT (mat r c f) = mat c r (\<lambda>i j. f j i)"
  by (simp add: mT_def cong: mat_cong)

lemma mT_zeros: "mT (mat n n (\<lambda>i j. 0)) = mat n n (\<lambda>i j. 0)"
  by (cases "n = 0") (simp_all add: mT_mat, simp add: mT_def mat_def ncols_def)

lemma mconj_mat: "mconj (mat r c f) = mat r c (\<lambda>i j. cnj (f i j))"
  by (simp add: mconj_def mat_def)

lemma matmul_zeros_right:
  "nrows a = n \<Longrightarrow> ncols a = n \<Longrightarrow> matmul a (mat n n (\<lambda>i j. 0)) = Inr (mat n n (\<lambda>i j. 0))"
  by (simp add: matmul_def cong: mat_cong)

lemma smul_one: "smul 1 a = a"
  by (simp add: smul_def)

section \<open>The loop and the steps of the three variants\<close>

lemma for_range_Suc_right:
  "for_range (Suc k) body st = and_then (for_range k body st) body"
proof (induction k arbitrary: st)
  case 0
  show ?case by (cases "body st") simp_all
next
  case (Suc k)
  show ?case
  proof (cases "body st")
    case (Inl e)
    then show ?thesis by simp
  next
    case (Inr st')
    then show ?thesis using Suc.IH [of st'] by simp
  qed
qed

lemma P_no_loss_step_transfer:
  "P_no_loss_step expm TD TN dz kk ks dk im ip dt n = transfer_step expm TD TN 0 dz kk ks dk im ip dt n"
  by (rule ext)
     (simp add: P_no_loss_step_def transfer_step_def P_mean_field_step_def and_then_def
        split: sum.splits prod.splits)

lemma P_Nico_step_transfer:
  "P_Nico_step expm TD TN G dz kk ks dk im ip dt n = transfer_step expm TD TN G dz kk ks dk im ip dt n"
  by (rule ext)
     (simp add: P_Nico_step_def transfer_step_def P_mean_field_step_def and_then_def
        split: sum.splits prod.splits)

lemma P_no_loss_transfer:
  "P_no_loss expm u TD TN dz kk ks dk im ip tf dt n =
     transfer_moments expm u TD TN 0 dz kk ks dk im ip (nat tf) dt n"
  by (simp add: P_no_loss_def transfer_moments_def P_no_loss_step_transfer Let_def and_then_def
      split: sum.splits prod.splits)

lemma P_Nico_transfer:
  "P_Nico expm u TD TN G dz kk ks dk im ip tf dt n =
     and_then (transfer_moments expm u TD TN G dz kk ks dk im ip (nat tf) dt n) (\<lambda>r.
       Inr (fst r, smul (of_real (exp (- G * dt * of_int tf))) (fst (snd r)),
                   smul (of_real (exp (- G * dt * of_int tf))) (snd (snd r))))"
  by (simp add: P_Nico_def transfer_moments_def P_Nico_step_transfer Let_def and_then_def
      split: sum.splits prod.splits)

lemma P_no_loss_zero_steps:
  "P_no_loss expm u TD TN dz kk ks dk im ip 0 dt n = Inr (u, mat n n (\<lambda>i j. 0), mat n n (\<lambda>i j. 0))"
  by (simp add: P_no_loss_def top_left_identity top_right_identity mT_zeros mconj_mat
      matmul_zeros_right Let_def)

text \<open>
  C4. \<open>P_no_loss\<close> is the accumulated-transfer-matrix computation: the transfer matrix
  starts as the identity of size \<open>2n\<close>, a further step multiplies it from the left by
  \<open>expm(i dt Q)\<close> for the generator of the new field, and the moments returned are
  \<open>U W\<^sup>T\<close> and \<open>conj(W) W\<^sup>T\<close> for the upper blocks of the final matrix. With no step the
  matrix is the identity, its blocks are \<open>U = I\<close> and \<open>W = 0\<close>, and \<open>M\<close> and \<open>N\<close> are zero.
\<close>

theorem P_no_loss_transfer_matrix:
  "P_no_loss expm u TD TN dz kk ks dk im ip tf dt n =
     transfer_moments expm u TD TN 0 dz kk ks dk im ip (nat tf) dt n
   \<and> for_range 0 (transfer_step expm TD TN 0 dz kk ks dk im ip dt n) (u, np_identity (2 * n))
       = Inr (u, np_identity (2 * n))
   \<and> for_range (Suc k) (transfer_step expm TD TN 0 dz kk ks dk im ip dt n) (u, np_identity (2 * n))
       = and_then (for_range k (transfer_step expm TD TN 0 dz kk ks dk im ip dt n)
                     (u, np_identity (2 * n)))
           (transfer_step expm TD TN 0 dz kk ks dk im ip dt n)
   \<and> top_left n (np_identity (2 * n)) = np_identity n
   \<and> top_right n (np_identity (2 * n)) = mat n n (\<lambda>i j. 0)
   \<and> P_no_loss expm u TD TN dz kk ks dk im ip 0 dt n
       = Inr (u, mat n n (\<lambda>i j. 0), mat n n (\<lambda>i j. 0))"
  using P_no_loss_transfer for_range_Suc_right top_left_identity top_right_identity
    P_no_loss_zero_steps
  by simp

text \<open>
  C7. \<open>P_Nico\<close> is the same accumulated-transfer-matrix computation with the loss rate
  \<open>G\<close> in the field steps, followed by one scaling of both moments by
  \<open>exp(- G dt tf)\<close>; \<open>P_no_loss\<close> is that computation with loss rate 0 and no scaling.
\<close>

theorem P_Nico_transfer_scaled:
  "P_Nico expm u TD TN G dz kk ks dk im ip tf dt n =
     and_then (transfer_moments expm u TD TN G dz kk ks dk im ip (nat tf) dt n) (\<lambda>r.
       Inr (fst r, smul (of_real (exp (- G * dt * of_int tf))) (fst (snd r)),
                   smul (of_real (exp (- G * dt * of_int tf))) (snd (snd r))))
   \<and> P_no_loss expm u TD TN dz kk ks dk im ip tf dt n =
       transfer_moments expm u TD TN 0 dz kk ks dk im ip (nat tf) dt n
   \<and> P_Nico expm u TD TN 0 dz kk ks dk im ip tf dt n =
       P_no_loss expm u TD TN dz kk ks dk im ip tf dt n"
proof -
  have nico: "P_Nico expm u TD TN G' dz kk ks dk im ip tf dt n =
     and_then (transfer_moments expm u TD TN G' dz kk ks dk im ip (nat tf) dt n) (\<lambda>r.
       Inr (fst r, smul (of_real (exp (- G' * dt * of_int tf))) (fst (snd r)),
                   smul (of_real (exp (- G' * dt * of_int tf))) (snd (snd r))))" for G'
    by (simp add: P_Nico_def transfer_moments_def P_Nico_step_transfer Let_def and_then_def
        split: sum.splits prod.splits)
  have zero: "P_Nico expm u TD TN 0 dz kk ks dk im ip tf dt n =
       P_no_loss expm u TD TN dz kk ks dk im ip tf dt n"
    by (simp add: nico P_no_loss_transfer smul_one and_then_def split: sum.splits)
  show ?thesis
    using nico [of G] zero P_no_loss_transfer by simp
qed

section \<open>The zero field\<close>

lemma length_np_zeros [simp]: "length (np_zeros n) = n"
  by (simp add: np_zeros_def)

lemma np_fft_zeros: "0 < n \<Longrightarrow> np_fft (np_zeros n) = Inr (np_zeros n)"
  by (auto simp add: np_fft_def np_zeros_def map_replicate_const)

lemma np_ifft_zeros: "0 < n \<Longrightarrow> np_ifft (np_zeros n) = Inr (np_zeros n)"
  by (auto simp add: np_ifft_def np_zeros_def map_replicate_const)

lemma bdim_same [simp]: "bdim n n = Some n"
  by (simp add: bdim_def)

lemma bcast1_mul_zeros: "length x = n \<Longrightarrow> bcast1 (*) x (np_zeros n) = Inr (np_zeros n)"
  by (auto simp add: bcast1_def np_zeros_def bidx_def map_replicate_const intro!: nth_equalityI)

lemma opD_zeros: "0 < n \<Longrightarrow> length kk = n \<Longrightarrow> opD (np_zeros n) TD G kk dt = Inr (np_zeros n)"
  by (simp add: opD_def np_fft_zeros bcast1_mul_zeros np_ifft_zeros) (simp add: np_zeros_def)

lemma opN_zeros: "TN \<noteq> 0 \<Longrightarrow> opN (np_zeros n) TN (np_zeros n) dt = Inr (np_zeros n)"
  by (simp add: opN_def bcast1_mul_zeros) 

lemma field_step_zeros:
  "0 < n \<Longrightarrow> length kk = n \<Longrightarrow> TN \<noteq> 0 \<Longrightarrow>
     P_mean_field_step TD TN G kk dt (np_zeros n) = Inr (np_zeros n)"
  by (simp add: P_mean_field_step_def opD_zeros opN_zeros)

lemma roll_index: "0 < n \<Longrightarrow> nat (k mod int n) < n"
  by (simp add: nat_less_iff)

lemma np_roll_zeros: "np_roll (np_zeros n) k = np_zeros n"
  by (cases "n = 0") (auto simp add: np_roll_def np_zeros_def roll_index intro!: nth_equalityI)

lemma myfft_zeros: "0 < n \<Longrightarrow> myfft (np_zeros n) dz = Inr (np_zeros n)"
  by (simp add: myfft_def np_fft_zeros fftshift_def) (simp add: np_zeros_def np_roll_zeros [unfolded np_zeros_def])

lemma m_zeros: "0 < n \<Longrightarrow> m (np_zeros n) TN dz = Inr (np_zeros n)"
  using myfft_zeros [of n dz] by (simp add: m_def np_zeros_def)

lemma s_zeros: "0 < n \<Longrightarrow> s (np_zeros n) TN dz = Inr (np_zeros n)"
  using myfft_zeros [of n dz] by (simp add: s_def np_zeros_def)

lemma index_table_length: "index_table n t \<Longrightarrow> length t = n"
  by (simp add: index_table_def)

lemma index_table_row: "index_table n t \<Longrightarrow> i < n \<Longrightarrow> length (t ! i) = n"
  by (auto simp add: index_table_def list_all_length)

lemma index_table_entry:
  "index_table n t \<Longrightarrow> i < n \<Longrightarrow> j < n \<Longrightarrow> 0 \<le> t ! i ! j \<and> t ! i ! j < int n"
  by (auto simp add: index_table_def list_all_length)

lemma index_table_ok:
  assumes "index_table n t"
  shows "list_all (list_all (py_index_ok n)) t"
proof -
  have "py_index_ok n (t ! i ! j)" if "i < n" "j < n" for i j
    using index_table_entry [OF assms that] by (simp add: py_index_ok_def)
  then show ?thesis
    using index_table_length [OF assms] index_table_row [OF assms]
    by (simp add: list_all_length)
qed

lemma mat_eqI:
  assumes "length a = r" "\<And>i. i < r \<Longrightarrow> length (a ! i) = c"
    "\<And>i j. i < r \<Longrightarrow> j < c \<Longrightarrow> a ! i ! j = f i j"
  shows "a = mat r c f"
proof (rule nth_equalityI)
  show "length a = length (mat r c f)" using assms(1) by simp
next
  fix i assume "i < length a"
  then have i: "i < r" using assms(1) by simp
  show "a ! i = mat r c f ! i"
    using i assms(2,3) by (auto intro!: nth_equalityI)
qed

lemma np_take2_mat:
  assumes "index_table n t" "length x = n"
  shows "np_take2 x t = Inr (mat n n (\<lambda>i j. x ! nat (t ! i ! j)))"
proof -
  have "map (map (py_index x)) t = mat n n (\<lambda>i j. x ! nat (t ! i ! j))"
  proof (rule mat_eqI)
    show "length (map (map (py_index x)) t) = n"
      using index_table_length [OF assms(1)] by simp
  next
    fix i assume "i < n"
    then show "length (map (map (py_index x)) t ! i) = n"
      using index_table_length [OF assms(1)] index_table_row [OF assms(1)] by simp
  next
    fix i j assume "i < n" "j < n"
    then show "map (map (py_index x)) t ! i ! j = x ! nat (t ! i ! j)"
      using index_table_length [OF assms(1)] index_table_row [OF assms(1)]
        index_table_entry [OF assms(1), of i j]
      by (simp add: py_index_def)
  qed
  then show ?thesis
    using index_table_ok [OF assms(1)] assms(2) by (simp add: np_take2_def)
qed

lemma map_map_mat: "map (map g) (mat r c f) = mat r c (\<lambda>i j. g (f i j))"
  by (simp add: mat_def)

lemma bcast2_mat:
  "bcast2 f (mat n n a) (mat n n b) = Inr (mat n n (\<lambda>i j. f (a i j) (b i j)))"
proof (cases "n = 1")
  case True
  then show ?thesis
    by (simp add: bcast2_def bidx_def mat_def nrows_def ncols_def)
next
  case False
  then show ?thesis
    by (simp add: bcast2_def bidx_def cong: mat_cong)
qed

lemma np_full_same: "length x = n \<Longrightarrow> np_full n x = Inr x"
  by (simp add: np_full_def)

lemma A_mat:
  assumes "index_table n im" "length ks = n" "m u TN dz = Inr mk" "length mk = n"
  shows "A u TD TN dz ks dk im n =
    Inr (mat n n (\<lambda>i j. (if i = j then of_real ((ks ! i)\<^sup>2 / (2 * TD)) else 0)
           + of_real (2 * dk) * mk ! nat (im ! i ! j) / of_real (sqrt (2 * pi))))"
  using assms
  by (simp add: A_def np_full_same np_take2_mat map_map_mat np_diag_def bcast2_mat)
     (rule mat_cong; simp)

lemma B_mat:
  assumes "index_table n ip" "s u TN dz = Inr sk" "length sk = n"
  shows "B u TN dz dk ip = Inr (mat n n (\<lambda>i j. of_real dk * sk ! nat (ip ! i ! j) / of_real (sqrt (2 * pi))))"
  using assms by (simp add: B_def np_take2_mat map_map_mat)

lemma mneg_mat: "mneg (mat r c f) = mat r c (\<lambda>i j. - f i j)"
  by (simp add: mneg_def mat_def)

lemma smul_mat: "smul z (mat r c f) = mat r c (\<lambda>i j. z * f i j)"
  by (simp add: smul_def mat_def)

lemma mT_mat_square: "mT (mat n n f) = mat n n (\<lambda>i j. f j i)"
  by (simp add: mT_def cong: mat_cong)

lemma np_block_mat:
  "np_block (mat n n a) (mat n n b) (mat n n c) (mat n n d) =
     Inr (mat (2 * n) (2 * n) (\<lambda>i j.
       if i < n then (if j < n then a i j else b i (j - n))
       else (if j < n then c (i - n) j else d (i - n) (j - n))))"
proof -
  have "map2 (@) (mat n n a) (mat n n b) @ map2 (@) (mat n n c) (mat n n d) =
     mat (2 * n) (2 * n) (\<lambda>i j.
       if i < n then (if j < n then a i j else b i (j - n))
       else (if j < n then c (i - n) j else d (i - n) (j - n)))"
    by (rule mat_eqI) (auto simp add: nth_append)
  then show ?thesis
    by (simp add: np_block_def)
qed

lemma is_diagI:
  assumes "length X = k" "\<And>i. i < k \<Longrightarrow> length (X ! i) = k"
    "\<And>i j. i < k \<Longrightarrow> j < k \<Longrightarrow> i \<noteq> j \<Longrightarrow> X ! i ! j = 0"
  shows "is_diag k X"
  unfolding is_diag_def using assms by (intro mat_eqI) auto

lemma is_diag_mat: "(\<And>i j. i < k \<Longrightarrow> j < k \<Longrightarrow> i \<noteq> j \<Longrightarrow> f i j = 0) \<Longrightarrow> is_diag k (mat k k f)"
  by (rule is_diagI) auto

lemma is_diagD:
  assumes "is_diag k X"
  shows "X = mat k k (\<lambda>i j. X ! i ! j)" "\<And>i j. i < k \<Longrightarrow> j < k \<Longrightarrow> i \<noteq> j \<Longrightarrow> X ! i ! j = 0"
proof -
  have eq: "X = mat k k (\<lambda>i j. if i = j then X ! i ! i else 0)"
    using assms by (simp add: is_diag_def)
  show "\<And>i j. i < k \<Longrightarrow> j < k \<Longrightarrow> i \<noteq> j \<Longrightarrow> X ! i ! j = 0"
    by (subst eq) simp
  have "length X = k" by (subst eq) simp
  moreover have "length (X ! i) = k" if "i < k" for i
    using that by (subst eq) simp
  ultimately show "X = mat k k (\<lambda>i j. X ! i ! j)"
    by (intro mat_eqI) auto
qed

lemma is_diag_smul: "is_diag k X \<Longrightarrow> is_diag k (smul z X)"
proof -
  assume d: "is_diag k X"
  have "smul z X = mat k k (\<lambda>i j. z * X ! i ! j)"
    by (subst is_diagD(1) [OF d]) (simp add: smul_mat)
  moreover have "is_diag k (mat k k (\<lambda>i j. z * X ! i ! j))"
    using is_diagD(2) [OF d] by (intro is_diag_mat) simp
  ultimately show ?thesis by simp
qed

lemma matmul_diag:
  assumes "is_diag k E" "is_diag k K"
  shows "\<exists>K'. matmul E K = Inr K' \<and> is_diag k K'"
proof -
  have E: "E = mat k k (\<lambda>i j. E ! i ! j)" and K: "K = mat k k (\<lambda>i j. K ! i ! j)"
    using is_diagD(1) assms by blast+
  have dims: "nrows E = k" "ncols E = k" "nrows K = k" "ncols K = k"
    by (subst E, simp, subst E, simp, subst K, simp, subst K, simp)
  have "(\<Sum>l<k. E ! i ! l * K ! l ! j) = 0" if "i < k" "j < k" "i \<noteq> j" for i j
  proof (rule sum.neutral, rule ballI)
    fix l assume "l \<in> {..<k}"
    then have l: "l < k" by simp
    show "E ! i ! l * K ! l ! j = 0"
    proof (cases "l = i")
      case True
      then show ?thesis using is_diagD(2) [OF assms(2), of i j] that by simp
    next
      case False
      then show ?thesis using is_diagD(2) [OF assms(1), of i l] that l by simp
    qed
  qed
  then have "is_diag k (mat k k (\<lambda>i j. \<Sum>l<k. E ! i ! l * K ! l ! j))"
    by (intro is_diag_mat)
  then show ?thesis
    using dims by (simp add: matmul_def)
qed

lemma is_diag_identity: "is_diag k (np_identity k)"
  unfolding np_identity_def by (rule is_diag_mat) simp

lemma top_right_diag: "is_diag (2 * n) K \<Longrightarrow> top_right n K = mat n n (\<lambda>i j. 0)"
proof -
  assume d: "is_diag (2 * n) K"
  have "top_right n K = mat n n (\<lambda>i j. K ! i ! (n + j))"
    by (subst is_diagD(1) [OF d]) (simp add: top_right_mat cong: mat_cong)
  also have "\<dots> = mat n n (\<lambda>i j. 0)"
    using is_diagD(2) [OF d] by (intro mat_cong) simp_all
  finally show ?thesis .
qed

lemma top_left_diag: "is_diag (2 * n) K \<Longrightarrow> top_left n K = mat n n (\<lambda>i j. K ! i ! j)"
  by (subst is_diagD(1) [of "2 * n" K], assumption) (simp add: top_left_mat cong: mat_cong)

lemma nth_np_zeros [simp]: "i < n \<Longrightarrow> np_zeros n ! i = 0"
  by (simp add: np_zeros_def)

lemma table_index_less: "index_table n t \<Longrightarrow> i < n \<Longrightarrow> j < n \<Longrightarrow> nat (t ! i ! j) < n"
  using index_table_entry [of n t i j] by (auto simp add: nat_less_iff)

lemma A_zeros:
  assumes "0 < n" "index_table n im" "length ks = n"
  shows "A (np_zeros n) TD TN dz ks dk im n = Inr (np_diag (map (\<lambda>x. of_real (x\<^sup>2 / (2 * TD))) ks))"
proof -
  have "A (np_zeros n) TD TN dz ks dk im n =
    Inr (mat n n (\<lambda>i j. (if i = j then of_real ((ks ! i)\<^sup>2 / (2 * TD)) else 0)
           + of_real (2 * dk) * np_zeros n ! nat (im ! i ! j) / of_real (sqrt (2 * pi))))"
    using assms by (intro A_mat) (simp_all add: m_zeros)
  also have "mat n n (\<lambda>i j. (if i = j then of_real ((ks ! i)\<^sup>2 / (2 * TD)) else 0)
           + of_real (2 * dk) * np_zeros n ! nat (im ! i ! j) / of_real (sqrt (2 * pi)))
     = np_diag (map (\<lambda>x. of_real (x\<^sup>2 / (2 * TD))) ks)"
    unfolding np_diag_def using assms table_index_less [OF assms(2)]
    by (intro mat_cong) simp_all
  finally show ?thesis .
qed

lemma B_zeros:
  assumes "0 < n" "index_table n ip"
  shows "B (np_zeros n) TN dz dk ip = Inr (mat n n (\<lambda>i j. 0))"
proof -
  have "B (np_zeros n) TN dz dk ip =
    Inr (mat n n (\<lambda>i j. of_real dk * np_zeros n ! nat (ip ! i ! j) / of_real (sqrt (2 * pi))))"
    using assms by (intro B_mat) (simp_all add: s_zeros)
  also have "mat n n (\<lambda>i j. of_real dk * np_zeros n ! nat (ip ! i ! j) / of_real (sqrt (2 * pi)))
     = mat n n (\<lambda>i j. 0)"
    using table_index_less [OF assms(2)] by (intro mat_cong) simp_all
  finally show ?thesis .
qed

lemma Q_zeros:
  assumes "0 < n" "index_table n im" "index_table n ip" "length ks = n"
  shows "\<exists>q. Q (np_zeros n) TD TN dz ks dk im ip n = Inr q \<and> is_diag (2 * n) q"
  using assms
  by (simp add: Q_def A_zeros B_zeros np_diag_def mconj_mat mT_mat_square mneg_mat np_block_mat)
     (rule is_diag_mat, auto)

lemma transfer_step_zeros:
  assumes "0 < n" "index_table n im" "index_table n ip" "length ks = n" "length kk = n"
    and ex: "\<forall>X. is_diag (2 * n) X \<longrightarrow> is_diag (2 * n) (expm X)"
    and tn: "TN \<noteq> 0"
    and K: "is_diag (2 * n) K"
  shows "\<exists>K'. transfer_step expm TD TN G dz kk ks dk im ip dt n (np_zeros n, K) = Inr (np_zeros n, K')
            \<and> is_diag (2 * n) K'"
proof -
  obtain q where q: "Q (np_zeros n) TD TN dz ks dk im ip n = Inr q" "is_diag (2 * n) q"
    using Q_zeros [OF assms(1-4)] by blast
  have "is_diag (2 * n) (expm (smul (\<i> * of_real dt) q))"
    using ex is_diag_smul [OF q(2)] by blast
  then obtain K' where "matmul (expm (smul (\<i> * of_real dt) q)) K = Inr K'" "is_diag (2 * n) K'"
    using matmul_diag K by blast
  then show ?thesis
    using assms(1,5) tn q(1) by (simp add: transfer_step_def field_step_zeros)
qed

lemma transfer_loop_zeros:
  assumes "0 < n" "index_table n im" "index_table n ip" "length ks = n" "length kk = n"
    and ex: "\<forall>X. is_diag (2 * n) X \<longrightarrow> is_diag (2 * n) (expm X)"
    and tn: "TN \<noteq> 0"
  shows "is_diag (2 * n) K \<Longrightarrow>
    \<exists>K'. for_range t (transfer_step expm TD TN G dz kk ks dk im ip dt n) (np_zeros n, K)
           = Inr (np_zeros n, K') \<and> is_diag (2 * n) K'"
proof (induction t arbitrary: K)
  case 0
  then show ?case by simp
next
  case (Suc t)
  obtain K1 where K1: "transfer_step expm TD TN G dz kk ks dk im ip dt n (np_zeros n, K) = Inr (np_zeros n, K1)"
      "is_diag (2 * n) K1"
    using transfer_step_zeros [OF assms Suc.prems] by blast
  show ?case
    using Suc.IH [OF K1(2)] K1(1) by simp
qed

lemma transfer_moments_zeros:
  assumes "0 < n" "index_table n im" "index_table n ip" "length ks = n" "length kk = n"
    and ex: "\<forall>X. is_diag (2 * n) X \<longrightarrow> is_diag (2 * n) (expm X)"
    and tn: "TN \<noteq> 0"
  shows "transfer_moments expm (np_zeros n) TD TN G dz kk ks dk im ip t dt n
     = Inr (np_zeros n, mat n n (\<lambda>i j. 0), mat n n (\<lambda>i j. 0))"
proof -
  obtain K where K: "for_range t (transfer_step expm TD TN G dz kk ks dk im ip dt n)
      (np_zeros n, np_identity (2 * n)) = Inr (np_zeros n, K)" "is_diag (2 * n) K"
    using transfer_loop_zeros [OF assms is_diag_identity] by blast
  show ?thesis
    using K(1)
    by (simp add: transfer_moments_def top_right_diag [OF K(2)] top_left_diag [OF K(2)]
        mT_zeros mconj_mat matmul_zeros_right)
qed

lemma expm_diag_is_diag: "is_diag k X \<Longrightarrow> is_diag k (expm_diag X)"
proof -
  assume d: "is_diag k X"
  have "nrows X = k"
    by (subst is_diagD(1) [OF d]) simp
  then show ?thesis
    unfolding expm_diag_def by (simp add: is_diag_mat)
qed

text \<open>
  C8. For the zero field of length \<open>n\<close>, index tables with entries in \<open>[0, n - 1]\<close>,
  grids of length \<open>n\<close>, nonzero \<open>TD\<close> and \<open>TN\<close>, and an \<open>expm\<close> that maps diagonal
  matrices to diagonal matrices (as the matrix exponential does): \<open>A\<close> is the dispersion
  diagonal, \<open>B\<close> is zero, after any number of steps of the \<open>P_no_loss\<close> loop the field is
  zero and the transfer matrix is diagonal with upper right block \<open>W = 0\<close>, and
  \<open>P_no_loss\<close> returns the zero field and \<open>M = N = 0\<close> for every step count.
\<close>

theorem zero_field_stays_zero:
  assumes "0 < n" "index_table n im" "index_table n ip" "length ks = n" "length kk = n"
    and "TD \<noteq> 0" "TN \<noteq> 0"
    and "\<forall>X. is_diag (2 * n) X \<longrightarrow> is_diag (2 * n) (expm X)"
  shows "A (np_zeros n) TD TN dz ks dk im n = Inr (np_diag (map (\<lambda>x. of_real (x\<^sup>2 / (2 * TD))) ks))
    \<and> B (np_zeros n) TN dz dk ip = Inr (mat n n (\<lambda>i j. 0))
    \<and> (\<exists>K. for_range t (P_no_loss_step expm TD TN dz kk ks dk im ip dt n)
               (np_zeros n, np_identity (2 * n)) = Inr (np_zeros n, K)
           \<and> is_diag (2 * n) K \<and> top_right n K = mat n n (\<lambda>i j. 0))
    \<and> P_no_loss expm (np_zeros n) TD TN dz kk ks dk im ip tf dt n
         = Inr (np_zeros n, mat n n (\<lambda>i j. 0), mat n n (\<lambda>i j. 0))"
proof -
  have loop: "\<exists>K. for_range t (P_no_loss_step expm TD TN dz kk ks dk im ip dt n)
               (np_zeros n, np_identity (2 * n)) = Inr (np_zeros n, K)
           \<and> is_diag (2 * n) K \<and> top_right n K = mat n n (\<lambda>i j. 0)"
    using transfer_loop_zeros [OF assms(1-5,8,7) is_diag_identity, of t TD 0 dz dk dt]
      top_right_diag
    by (auto simp add: P_no_loss_step_transfer)
  show ?thesis
    using A_zeros [OF assms(1,2,4)] B_zeros [OF assms(1,3)] loop
      transfer_moments_zeros [OF assms(1-5,8,7)]
    by (simp add: P_no_loss_transfer)
qed

lemma index_table_1: "index_table 1 [[0]]"
  by (simp add: index_table_def)

theorem zero_field_stays_zero_witness:
  "index_table 1 [[0]] \<and> length [0::real] = 1
   \<and> P_no_loss expm_diag (np_zeros 1) 1 1 1 [0] [0] (2 * pi) [[0]] [[0]] 2 1 1
        = Inr (np_zeros 1, mat 1 1 (\<lambda>i j. 0), mat 1 1 (\<lambda>i j. 0))"
proof -
  have ex: "\<forall>X. is_diag (2 * 1) X \<longrightarrow> is_diag (2 * 1) (expm_diag X)"
    using expm_diag_is_diag by blast
  show ?thesis
    using zero_field_stays_zero [of 1 "[[0]]" "[[0]]" "[0]" "[0]" 1 1 expm_diag 1 "2 * pi" 0 1 2, OF _ index_table_1 index_table_1 _ _ _ _ ex]
      index_table_1
    by simp
qed

section \<open>A grid of one point\<close>

lemma mat11: "mat (Suc 0) (Suc 0) f = [[f 0 0]]"
  by (simp add: mat_def)

lemma mat22: "mat (Suc (Suc 0)) (Suc (Suc 0)) f = [[f 0 0, f 0 (Suc 0)], [f (Suc 0) 0, f (Suc 0) (Suc 0)]]"
  by (simp add: mat_def upt_rec)

lemma sum_lessThan_2: "(\<Sum>k<Suc (Suc 0). f k) = f 0 + f (Suc 0)"
  by simp

lemma np_fft_1: "np_fft [z] = Inr [z]"
  by (simp add: np_fft_def)

lemma np_ifft_1: "np_ifft [z] = Inr [z]"
  by (simp add: np_ifft_def)

lemma bcast1_11: "bcast1 f [x] [y] = Inr [f x y]"
  by (simp add: bcast1_def bdim_def bidx_def)

lemma opD_1: "opD [z] TD G [0] dt = Inr [z * of_real (exp (dt / 2 * (- G / 2)))]"
  by (simp add: opD_def np_fft_1 np_ifft_1 bcast1_11)

lemma opN_1:
  "TN \<noteq> 0 \<Longrightarrow> opN [z] TN [w] dt = Inr [exp (of_real dt * \<i> / of_real TN * of_real ((cmod w)\<^sup>2)) * z]"
  by (simp add: opN_def bcast1_11)

lemma myfft_1: "myfft [z] dz = Inr [z * of_real dz / of_real (sqrt (2 * pi))]"
  by (simp add: myfft_def np_fft_1 fftshift_def np_roll_def)

lemma np_take2_1: "np_take2 [z] [[0]] = Inr [[z]]"
  by (simp add: np_take2_def py_index_ok_def py_index_def)

lemma bcast2_11: "bcast2 f [[x]] [[y]] = Inr [[f x y]]"
  by (simp add: bcast2_def nrows_def ncols_def bdim_def bidx_def mat11)

lemma A_1: "A [z] TD TN dz [0] dk [[0]] (Suc 0) =
   Inr [[of_real (2 * dk) * (of_real ((cmod z)\<^sup>2) * of_real dz / of_real (sqrt (2 * pi)) / of_real TN) / of_real (sqrt (2 * pi))]]"
  by (simp add: A_def m_def myfft_1 np_full_def np_take2_1 np_diag_def mat11 bcast2_11)

lemma B_1: "B [z] TN dz dk [[0]] =
   Inr [[of_real dk * (z\<^sup>2 * of_real dz / of_real (sqrt (2 * pi)) / of_real TN) / of_real (sqrt (2 * pi))]]"
  by (simp add: B_def s_def myfft_1 np_take2_1)

lemma mT_11: "mT [[z]] = [[z]]"
  by (simp add: mT_def nrows_def ncols_def mat11)

lemma np_block_1: "np_block [[a]] [[b]] [[c]] [[d]] = Inr [[a, b], [c, d]]"
  by (simp add: np_block_def nrows_def ncols_def)

lemma matmul_11: "matmul [[a]] [[b]] = Inr [[a * b]]"
  by (simp add: matmul_def nrows_def ncols_def mat11)

lemma nd_matmul_21: "nd_matmul (Arr2 [[a]]) (Arr1 [b]) = Inr (Arr1 [a * b])"
  by (simp add: nrows_def ncols_def)

lemma nd_matmul_12: "nd_matmul (Arr1 [a]) (Arr2 [[b]]) = Inr (Arr1 [a * b])"
  by (simp add: nrows_def ncols_def)

lemma nd_matmul_22: "nd_matmul (Arr2 [[a]]) (Arr2 [[b]]) = Inr (Arr2 [[a * b]])"
  by (simp add: matmul_11)

lemma nd_add_11: "nd_add (Arr1 [a]) (Arr1 [b]) = Inr (Arr1 [a + b])"
  by (simp add: nd_add_def bcast2_11 nd_of_rows_def)

lemma nd_add_12: "nd_add (Arr1 [a]) (Arr2 [[b]]) = Inr (Arr2 [[a + b]])"
  by (simp add: nd_add_def bcast2_11 nd_of_rows_def)

lemma nd_add_22: "nd_add (Arr2 [[a]]) (Arr2 [[b]]) = Inr (Arr2 [[a + b]])"
  by (simp add: nd_add_def bcast2_11 nd_of_rows_def)

lemma mm_Inr: "mm (Inr x) (Inr y) = nd_matmul x y"
  by (simp add: mm_def)

lemma pl_Inr: "pl (Inr x) (Inr y) = nd_add x y"
  by (simp add: pl_def)

lemma P_loss_moments_first_1:
  "P_loss_moments (Arr2 [[U]]) (Arr2 [[W]]) G dt (Arr1 [0]) (Arr1 [0]) =
     Inr (Arr2 [[of_real (1 - G * dt) * (U * W)]],
          Arr2 [[of_real (1 - G * dt) * (cnj W * (U * W) * U + cnj U * cnj (U * W) * W + cnj W * W)]])"
  by (simp add: P_loss_moments_def mm_Inr pl_Inr mT_11 mconj_def
      nd_matmul_21 nd_matmul_12 nd_matmul_22 nd_add_11 nd_add_12 nd_add_22 smul_def
      nrows_def ncols_def mat11 matmul_def nd_add_def bcast2_11 nd_of_rows_def)

lemma matmul_22: "matmul [[a, b], [c, d]] [[e, f], [g, h]] =
   Inr [[a * e + b * g, a * f + b * h], [c * e + d * g, c * f + d * h]]"
  by (simp add: matmul_def nrows_def ncols_def mat22)

lemma identity_2: "np_identity 2 = [[1, 0], [0, 1]]"
  by (simp add: np_identity_def mat_def upt_2)

section \<open>The moment recursion of the lossy variant\<close>

lemma sqrt3_sq: "complex_of_real (sqrt 3) * complex_of_real (sqrt 3) = 3"
proof -
  have "complex_of_real (sqrt 3) * complex_of_real (sqrt 3) = complex_of_real (sqrt 3 * sqrt 3)"
    by (simp only: of_real_mult)
  also have "sqrt 3 * sqrt 3 = (3::real)"
    by simp
  finally show ?thesis by simp
qed

lemma cnj_cis_mult: "cnj (cis x) * cis x = 1"
  by (simp add: cis_cnj cis_mult)

lemma example_M:
  "(\<i> / of_real (sqrt 3) * 2) * (\<i> / of_real (sqrt 3) * c) = - (2 * c / 3)"
proof -
  have "(\<i> / of_real (sqrt 3) * 2) * (\<i> / of_real (sqrt 3) * c)
        = (\<i> * \<i>) * (2 * c) / (of_real (sqrt 3) * of_real (sqrt 3))"
    by (simp add: field_simps)
  then show ?thesis
    by (simp add: sqrt3_sq)
qed

lemma example_N_claimed:
  assumes "cnj c * c = 1"
  shows "cnj (\<i> / of_real (sqrt 3) * c) * (\<i> / of_real (sqrt 3) * c) = 1 / 3"
proof -
  have "cnj (\<i> / of_real (sqrt 3) * c) * (\<i> / of_real (sqrt 3) * c)
        = - (\<i> * \<i>) * (cnj c * c) / (of_real (sqrt 3) * of_real (sqrt 3))"
    by (simp add: field_simps)
  then show ?thesis
    using assms by (simp add: sqrt3_sq)
qed

lemma example_N_code:
  assumes "cnj c * c = 1"
  shows "cnj (\<i> / of_real (sqrt 3) * c) * (- (2 * c / 3)) * (\<i> / of_real (sqrt 3) * 2)
       + cnj (\<i> / of_real (sqrt 3) * 2) * cnj (- (2 * c / 3)) * (\<i> / of_real (sqrt 3) * c)
       + cnj (\<i> / of_real (sqrt 3) * c) * (\<i> / of_real (sqrt 3) * c) = - (5 / 9)"
proof -
  have a: "cnj (\<i> / of_real (sqrt 3) * c) * (- (2 * c / 3)) * (\<i> / of_real (sqrt 3) * 2)
        = (\<i> * \<i>) * (4 / 3) * (cnj c * c) / (of_real (sqrt 3) * of_real (sqrt 3))"
    by (simp add: field_simps)
  have b: "cnj (\<i> / of_real (sqrt 3) * 2) * cnj (- (2 * c / 3)) * (\<i> / of_real (sqrt 3) * c)
        = (\<i> * \<i>) * (4 / 3) * (cnj c * c) / (of_real (sqrt 3) * of_real (sqrt 3))"
    by (simp add: field_simps)
  show ?thesis
    unfolding a b example_N_claimed [OF assms] using assms by (simp add: sqrt3_sq)
qed

lemma example_pair_identity:
  "cnj (- (2 * cis x / 3)) * (- (2 * cis x / 3)) = (1 / 3) * (1 / 3 + 1)"
  "cnj (- (2 * cis x / 3)) * (- (2 * cis x / 3)) \<noteq> (- (5 / 9)) * (- (5 / 9) + 1)"
proof -
  have "cnj (- (2 * cis x / 3)) * (- (2 * cis x / 3)) = 4 / 9 * (cnj (cis x) * cis x)"
    by simp
  then have v: "cnj (- (2 * cis x / 3)) * (- (2 * cis x / 3)) = 4 / 9"
    by (simp only: cnj_cis_mult mult_1_right)
  show "cnj (- (2 * cis x / 3)) * (- (2 * cis x / 3)) = (1 / 3) * (1 / 3 + 1)"
    unfolding v by simp
  show "cnj (- (2 * cis x / 3)) * (- (2 * cis x / 3)) \<noteq> (- (5 / 9)) * (- (5 / 9) + 1)"
    unfolding v by (simp add: complex_eq_iff)
qed

lemma claimed_moments_first_1:
  "claimed_moments (Arr2 [[U]]) (Arr2 [[W]]) G dt (Arr1 [0]) (Arr1 [0]) =
     Inr (Arr2 [[of_real (1 - G * dt) * (U * W)]], Arr2 [[of_real (1 - G * dt) * (cnj W * W)]])"
  by (simp add: claimed_moments_def mm_Inr pl_Inr mT_11 mconj_def
      nd_matmul_21 nd_matmul_12 nd_matmul_22 nd_add_11 nd_add_12 nd_add_22 smul_def
      nrows_def ncols_def mat11 matmul_def nd_add_def bcast2_11 nd_of_rows_def)

lemma example_generator_square:
  "matmul [[2, cis x], [- cis (- x), - 2]] [[2, cis x], [- cis (- x), - 2]] = Inr [[3, 0], [0, 3]]"
  by (simp add: matmul_22 cis_mult)

text \<open>
  C2. The claim has \<open>N'\<close> computed from the \<open>M\<close> of before the step. The code assigns
  \<open>M\<close> first and computes \<open>N\<close> from the new \<open>M\<close>. On a grid of one point with
  \<open>u = [1]\<close>, \<open>TD = TN = dz = 1\<close>, \<open>dk = 2 pi\<close> and \<open>dt = pi / (2 sqrt 3)\<close> the generator is
  \<open>Q = [[2, c], [- conj c, - 2]]\<close> with \<open>c = cis (2 dt)\<close>, its square is \<open>3 I\<close>, hence
  \<open>expm(i dt Q) = (i / sqrt 3) Q\<close>, with blocks \<open>U = 2 i / sqrt 3\<close> and
  \<open>W = i c / sqrt 3\<close>. From \<open>M = N = 0\<close> and \<open>G = 0\<close> the code returns \<open>N = - 5/9\<close>; the
  recursion of the claim gives \<open>N = conj(W) W = 1/3\<close>.
\<close>

theorem P_loss_moments_uses_updated_M:
  "P_loss_moments (Arr2 [[\<i> / of_real (sqrt 3) * 2]])
       (Arr2 [[\<i> / of_real (sqrt 3) * cis (2 * (pi / (2 * sqrt 3)))]]) 0 (pi / (2 * sqrt 3))
       (Arr1 [0]) (Arr1 [0])
     = Inr (Arr2 [[- (2 * cis (2 * (pi / (2 * sqrt 3))) / 3)]], Arr2 [[- (5 / 9)]])
   \<and> claimed_moments (Arr2 [[\<i> / of_real (sqrt 3) * 2]])
       (Arr2 [[\<i> / of_real (sqrt 3) * cis (2 * (pi / (2 * sqrt 3)))]]) 0 (pi / (2 * sqrt 3))
       (Arr1 [0]) (Arr1 [0])
     = Inr (Arr2 [[- (2 * cis (2 * (pi / (2 * sqrt 3))) / 3)]], Arr2 [[1 / 3]])"
proof -
  have code: "P_loss_moments (Arr2 [[U]]) (Arr2 [[W]]) 0 dt (Arr1 [0]) (Arr1 [0]) =
     Inr (Arr2 [[U * W]], Arr2 [[cnj W * (U * W) * U + cnj U * cnj (U * W) * W + cnj W * W]])"
    for U W dt
    by (simp add: P_loss_moments_first_1)
  have claimed: "claimed_moments (Arr2 [[U]]) (Arr2 [[W]]) 0 dt (Arr1 [0]) (Arr1 [0]) =
     Inr (Arr2 [[U * W]], Arr2 [[cnj W * W]])" for U W dt
    by (simp add: claimed_moments_first_1)
  have N: "cnj (\<i> / of_real (sqrt 3) * cis x) * ((\<i> / of_real (sqrt 3) * 2) * (\<i> / of_real (sqrt 3) * cis x))
          * (\<i> / of_real (sqrt 3) * 2)
        + cnj (\<i> / of_real (sqrt 3) * 2) * cnj ((\<i> / of_real (sqrt 3) * 2) * (\<i> / of_real (sqrt 3) * cis x))
          * (\<i> / of_real (sqrt 3) * cis x)
        + cnj (\<i> / of_real (sqrt 3) * cis x) * (\<i> / of_real (sqrt 3) * cis x) = - (5 / 9)" for x
    by (simp only: example_M example_N_code [OF cnj_cis_mult])
  have p1: "P_loss_moments (Arr2 [[\<i> / of_real (sqrt 3) * 2]])
       (Arr2 [[\<i> / of_real (sqrt 3) * cis x]]) 0 dt (Arr1 [0]) (Arr1 [0])
     = Inr (Arr2 [[(\<i> / of_real (sqrt 3) * 2) * (\<i> / of_real (sqrt 3) * cis x)]], Arr2 [[- (5 / 9)]])"
    for x dt
    by (simp only: code N)
  have p2: "claimed_moments (Arr2 [[\<i> / of_real (sqrt 3) * 2]])
       (Arr2 [[\<i> / of_real (sqrt 3) * cis x]]) 0 dt (Arr1 [0]) (Arr1 [0])
     = Inr (Arr2 [[(\<i> / of_real (sqrt 3) * 2) * (\<i> / of_real (sqrt 3) * cis x)]], Arr2 [[1 / 3]])"
    for x dt
    by (simp only: claimed example_N_claimed [OF cnj_cis_mult])
  show ?thesis
    by (simp only: p1 p2 example_M simp_thms)
qed

lemma field_step_unit_1: "P_mean_field_step 1 1 0 [0] dt [1] = Inr [cis dt]"
  by (simp add: P_mean_field_step_def opD_1 opN_1 cis_conv_exp mult.commute)

lemma Q_unit_1:
  "Q [cis dt] 1 1 1 [0] (2 * pi) [[0]] [[0]] (Suc 0)
     = Inr [[2, cis (2 * dt)], [- cis (- (2 * dt)), - 2]]"
proof -
  have a: "complex_of_real (2 * (2 * pi)) * (1 / of_real (sqrt (2 * pi))) / of_real (sqrt (2 * pi)) = 2"
  proof -
    have "complex_of_real (2 * (2 * pi)) * (1 / of_real (sqrt (2 * pi))) / of_real (sqrt (2 * pi))
        = of_real (2 * (2 * pi)) / (of_real (sqrt (2 * pi)) * of_real (sqrt (2 * pi)))"
      by simp
    then show ?thesis
      by (simp add: sqrt_2pi_sq)
  qed
  have b: "complex_of_real (2 * pi) * (z / of_real (sqrt (2 * pi))) / of_real (sqrt (2 * pi)) = z" for z
  proof -
    have "complex_of_real (2 * pi) * (z / of_real (sqrt (2 * pi))) / of_real (sqrt (2 * pi))
        = of_real (2 * pi) * z / (of_real (sqrt (2 * pi)) * of_real (sqrt (2 * pi)))"
      by simp
    then show ?thesis
      by (simp add: sqrt_2pi_sq)
  qed
  have A1: "A [cis dt] 1 1 1 [0] (2 * pi) [[0]] (Suc 0) = Inr [[2]]"
    unfolding A_1 using a by simp
  have B1: "B [cis dt] 1 1 (2 * pi) [[0]] = Inr [[cis (2 * dt)]]"
    unfolding B_1 using b [of "(cis dt)\<^sup>2"] by (simp add: DeMoivre)
  show ?thesis
    by (simp add: Q_def A1 B1 mconj_def mT_11 mneg_def np_block_1 cis_cnj)
qed

lemma top_blocks_22:
  "top_left (Suc 0) [[a, b], [c, d]] = [[a]]" "top_right (Suc 0) [[a, b], [c, d]] = [[b]]"
  by (simp_all add: top_left_def top_right_def)

lemma one_step_no_loss:
  assumes "expm (smul (\<i> * of_real dt) [[2, cis (2 * dt)], [- cis (- (2 * dt)), - 2]]) = [[U, W], [X, Y]]"
  shows "P_no_loss expm [1] 1 1 1 [0] [0] (2 * pi) [[0]] [[0]] 1 dt 1
     = Inr ([cis dt], [[U * W]], [[cnj W * W]])"
  using assms
  by (simp add: P_no_loss_transfer transfer_moments_def transfer_step_def field_step_unit_1
      Q_unit_1 identity_2 matmul_22 top_blocks_22 mT_11 mconj_def matmul_11)

lemma P_loss_step_field:
  "P_loss_step expm TD TN G dz kk ks dk im ip dt n (u, M, N) =
     and_then (P_mean_field_step TD TN G kk dt u) (\<lambda>u'.
     and_then (Q u' TD TN dz ks dk im ip n) (\<lambda>q.
     and_then (P_loss_moments (Arr2 (top_left n (expm (smul (\<i> * of_real dt) q))))
                              (Arr2 (top_right n (expm (smul (\<i> * of_real dt) q)))) G dt M N) (\<lambda>MN.
     Inr (u', fst MN, snd MN))))"
  by (simp add: P_loss_step_def P_mean_field_step_def and_then_def Let_def
      split: sum.splits prod.splits)

lemma one_step_loss:
  assumes "expm (smul (\<i> * of_real dt) [[2, cis (2 * dt)], [- cis (- (2 * dt)), - 2]]) = [[U, W], [X, Y]]"
  shows "P_loss expm [1] 1 1 0 1 [0] [0] (2 * pi) [[0]] [[0]] 1 dt 1
     = Inr ([cis dt], Arr2 [[U * W]],
            Arr2 [[cnj W * (U * W) * U + cnj U * cnj (U * W) * W + cnj W * W]])"
  using assms
  by (simp add: P_loss_def P_loss_step_field np_zeros_def field_step_unit_1
      Q_unit_1 top_blocks_22 P_loss_moments_first_1)

lemma smul_22: "smul z [[a, b], [c, d]] = [[z * a, z * b], [z * c, z * d]]"
  by (simp add: smul_def)

text \<open>
  C3. On the same input, for any \<open>expm\<close> that returns the exponential
  \<open>(i / sqrt 3) Q\<close> on the matrix \<open>i dt Q\<close> of the first step, one step of \<open>P_no_loss\<close>
  returns \<open>N = 1/3\<close> and one step of \<open>P_loss\<close> with \<open>G = 0\<close> returns \<open>N = - 5/9\<close>: the two
  variants do not agree at zero loss.
\<close>

theorem P_loss_zero_rate_differs:
  assumes "expm (smul (\<i> * of_real (pi / (2 * sqrt 3)))
             [[2, cis (2 * (pi / (2 * sqrt 3)))], [- cis (- (2 * (pi / (2 * sqrt 3)))), - 2]])
           = smul (\<i> / of_real (sqrt 3))
             [[2, cis (2 * (pi / (2 * sqrt 3)))], [- cis (- (2 * (pi / (2 * sqrt 3)))), - 2]]"
  shows "P_no_loss expm [1] 1 1 1 [0] [0] (2 * pi) [[0]] [[0]] 1 (pi / (2 * sqrt 3)) 1
       = Inr ([cis (pi / (2 * sqrt 3))], [[- (2 * cis (2 * (pi / (2 * sqrt 3))) / 3)]], [[1 / 3]])
     \<and> P_loss expm [1] 1 1 0 1 [0] [0] (2 * pi) [[0]] [[0]] 1 (pi / (2 * sqrt 3)) 1
       = Inr ([cis (pi / (2 * sqrt 3))], Arr2 [[- (2 * cis (2 * (pi / (2 * sqrt 3))) / 3)]],
              Arr2 [[- (5 / 9)]])"
proof -
  have N: "cnj (\<i> / of_real (sqrt 3) * cis x) * ((\<i> / of_real (sqrt 3) * 2) * (\<i> / of_real (sqrt 3) * cis x))
          * (\<i> / of_real (sqrt 3) * 2)
        + cnj (\<i> / of_real (sqrt 3) * 2) * cnj ((\<i> / of_real (sqrt 3) * 2) * (\<i> / of_real (sqrt 3) * cis x))
          * (\<i> / of_real (sqrt 3) * cis x)
        + cnj (\<i> / of_real (sqrt 3) * cis x) * (\<i> / of_real (sqrt 3) * cis x) = - (5 / 9)" for x
    by (simp only: example_M example_N_code [OF cnj_cis_mult])
  note K = assms [unfolded smul_22 [of "\<i> / of_real (sqrt 3)"]]
  have a: "P_no_loss expm [1] 1 1 1 [0] [0] (2 * pi) [[0]] [[0]] 1 (pi / (2 * sqrt 3)) 1
       = Inr ([cis (pi / (2 * sqrt 3))], [[- (2 * cis (2 * (pi / (2 * sqrt 3))) / 3)]], [[1 / 3]])"
    by (simp only: one_step_no_loss [where expm = expm and dt = "pi / (2 * sqrt 3)", OF K] example_M example_N_claimed [OF cnj_cis_mult])
  have b: "P_loss expm [1] 1 1 0 1 [0] [0] (2 * pi) [[0]] [[0]] 1 (pi / (2 * sqrt 3)) 1
       = Inr ([cis (pi / (2 * sqrt 3))],
              Arr2 [[(\<i> / of_real (sqrt 3) * 2) * (\<i> / of_real (sqrt 3) * cis (2 * (pi / (2 * sqrt 3))))]],
              Arr2 [[- (5 / 9)]])"
    by (simp only: one_step_loss [where expm = expm and dt = "pi / (2 * sqrt 3)", OF K] N)
  show ?thesis
    using a b by (simp only: example_M simp_thms)
qed

theorem P_loss_zero_rate_differs_witness:
  "P_loss (\<lambda>X. smul (\<i> / of_real (sqrt 3))
             [[2, cis (2 * (pi / (2 * sqrt 3)))], [- cis (- (2 * (pi / (2 * sqrt 3)))), - 2]])
      [1] 1 1 0 1 [0] [0] (2 * pi) [[0]] [[0]] 1 (pi / (2 * sqrt 3)) 1
     = Inr ([cis (pi / (2 * sqrt 3))], Arr2 [[- (2 * cis (2 * (pi / (2 * sqrt 3))) / 3)]],
            Arr2 [[- (5 / 9)]])
   \<and> P_no_loss (\<lambda>X. smul (\<i> / of_real (sqrt 3))
             [[2, cis (2 * (pi / (2 * sqrt 3)))], [- cis (- (2 * (pi / (2 * sqrt 3)))), - 2]])
      [1] 1 1 1 [0] [0] (2 * pi) [[0]] [[0]] 1 (pi / (2 * sqrt 3)) 1
     = Inr ([cis (pi / (2 * sqrt 3))], [[- (2 * cis (2 * (pi / (2 * sqrt 3))) / 3)]], [[1 / 3]])"
  using P_loss_zero_rate_differs [of "\<lambda>X. smul (\<i> / of_real (sqrt 3))
             [[2, cis (2 * (pi / (2 * sqrt 3)))], [- cis (- (2 * (pi / (2 * sqrt 3)))), - 2]]", OF refl]
  by (simp only: simp_thms)

section \<open>The grids and index tables of the driver\<close>

lemma np_roll_length [simp]: "length (np_roll x k) = length x"
  by (simp add: np_roll_def)

lemma np_roll_nth: "i < length x \<Longrightarrow> np_roll x k ! i = x ! nat ((int i - k) mod int (length x))"
  by (simp add: np_roll_def)

lemma fftshift_length [simp]: "length (fftshift x) = length x"
  by (simp add: fftshift_def)

lemma fftshift_nth:
  "i < length x \<Longrightarrow> fftshift x ! i = x ! nat ((int i - int (length x div 2)) mod int (length x))"
  by (simp add: fftshift_def np_roll_nth)

lemma np_fftfreq_length: "n = 2 * c + 1 \<Longrightarrow> length (np_fftfreq n d) = n"
  by (simp add: np_fftfreq_def)

lemma np_fftfreq_nth:
  assumes "n = 2 * c + 1" "i < n"
  shows "np_fftfreq n d ! i = (if i \<le> c then real i else real i - real n) * (1 / (real n * d))"
proof -
  have l: "nat ((int n - 1) div 2 + 1) = c + 1" "n div 2 = c"
    using assms(1) by simp_all
  show ?thesis
  proof (cases "i \<le> c")
    case True
    then show ?thesis
      unfolding np_fftfreq_def l by (simp add: nth_append)
  next
    case False
    then have "i - (c + 1) < c" using assms by simp
    then show ?thesis
      unfolding np_fftfreq_def l using False assms by (simp add: nth_append)
  qed
qed

lemma shift_index:
  assumes "n = 2 * c + 1" "j < n"
  shows "nat ((int j - int c) mod int n) = (if j < c then j + c + 1 else j - c)"
proof (cases "j < c")
  case True
  have "(int j - int c) mod int n = (int j - int c + int n) mod int n"
    by (simp only: mod_add_self2)
  also have "\<dots> = int j - int c + int n"
    using True assms by (intro mod_pos_pos_trivial) simp_all
  finally have "(int j - int c) mod int n = int j - int c + int n" .
  then show ?thesis using True assms by simp
next
  case False
  have "(int j - int c) mod int n = int j - int c"
    using False assms by (intro mod_pos_pos_trivial) simp_all
  then show ?thesis using False by simp
qed

lemma np_linspace_step:
  "1 < n \<Longrightarrow> np_linspace (- zf) zf n ! 1 - np_linspace (- zf) zf n ! 0 = 2 * zf / real (n - 1)"
  by (simp add: np_linspace_def)

lemma qss_init_odd:
  assumes "1 \<le> c" "zf \<noteq> 0"
  shows "\<exists>q. qss_init zf (2 * c + 1) = Inr q \<and> qss_n q = 2 * c + 1 \<and> qss_dk q \<noteq> 0
     \<and> length (qss_ks q) = 2 * c + 1
     \<and> list_all (\<lambda>j. qss_ks q ! j = (real j - real c) * qss_dk q) [0..<2 * c + 1]"
proof -
  define n where "n = 2 * c + 1"
  define dz where "dz = np_linspace (- zf) zf n ! 1 - np_linspace (- zf) zf n ! 0"
  define kk where "kk = map (\<lambda>x. x * (2 * pi)) (np_fftfreq n dz)"
  define dk where "dk = kk ! 1 - kk ! 0"
  have n: "1 < n" "\<not> n < 2" "n div 2 = c"
    using assms(1) by (simp_all add: n_def)
  have "dz = 2 * zf / real (n - 1)"
    unfolding dz_def using n(1) by (rule np_linspace_step)
  then have dz: "dz \<noteq> 0"
    using assms n by simp
  have lkk: "length kk = n"
    by (simp add: kk_def np_fftfreq_length [OF n_def])
  have kk: "kk ! i = (if i \<le> c then real i else real i - real n) * (1 / (real n * dz)) * (2 * pi)"
    if "i < n" for i
    using that by (simp add: kk_def np_fftfreq_nth [OF n_def] np_fftfreq_length [OF n_def])
  have dk: "dk = 1 / (real n * dz) * (2 * pi)"
    using assms(1) n by (simp add: dk_def kk)
  have dk0: "dk \<noteq> 0"
    using dz n by (simp add: dk)
  have ks: "fftshift kk ! j = (real j - real c) * dk" if "j < n" for j
  proof -
    have idx: "nat ((int j - int (length kk div 2)) mod int (length kk)) = (if j < c then j + c + 1 else j - c)"
      using shift_index [OF n_def that] by (simp add: lkk n)
    have jl: "j < length kk"
      using that lkk by simp
    have sh: "fftshift kk ! j = kk ! (if j < c then j + c + 1 else j - c)"
      by (simp only: fftshift_nth [OF jl] idx)
    have rn: "real n = 2 * real c + 1"
      by (simp add: n_def)
    show ?thesis
    proof (cases "j < c")
      case True
      then have i: "j + c + 1 < n" "\<not> j + c + 1 \<le> c"
        by (simp_all add: n_def)
      have "fftshift kk ! j = (real (j + c + 1) - real n) * (1 / (real n * dz)) * (2 * pi)"
        using True sh kk [OF i(1)] i(2) by simp
      also have "real (j + c + 1) - real n = real j - real c"
        by (simp add: rn)
      finally show ?thesis
        by (simp add: dk)
    next
      case False
      then have i: "j - c < n" "j - c \<le> c"
        using that by (simp_all add: n_def)
      have "fftshift kk ! j = real (j - c) * (1 / (real n * dz)) * (2 * pi)"
        using False sh kk [OF i(1)] i(2) by simp
      also have "real (j - c) = real j - real c"
        using False by (simp add: of_nat_diff)
      finally show ?thesis
        by (simp add: dk)
    qed
  qed
  have "qss_init zf n = Inr \<lparr>qss_zf = zf, qss_n = n, qss_zz = np_linspace (- zf) zf n, qss_dz = dz,
          qss_kk = kk, qss_ks = fftshift kk, qss_dk = dk\<rparr>"
    using n by (simp add: qss_init_def Let_def dz_def kk_def dk_def)
  moreover have "list_all (\<lambda>j. fftshift kk ! j = (real j - real c) * dk) [0..<n]"
    using ks by (simp only: list_all_length length_upt nth_upt) simp
  ultimately show ?thesis
    using dk0 lkk by (simp add: n_def del: upt_Suc)
qed

lemma np_rint_of_int: "np_rint (of_int k) = of_int k"
  by (simp add: np_rint_def)

lemma astype_int_of_int: "astype_int (of_int k) = k"
  by (simp add: astype_int_def)

lemma np_clip_of_int: "np_clip (of_int a) 0 (of_int b) = of_int (min (max a 0) b)"
  by (simp add: np_clip_def min_def max_def)

lemma table_entry:
  assumes "dk \<noteq> 0" "x = (real j - real c) * dk" "y = (real i - real c) * dk" "real n - 1 = 2 * real c"
  shows "astype_int (np_clip (np_rint (x / dk - y / dk) + (real n - 1) / 2) 0 (real n - 1))
         = min (max (int j - int i + int c) 0) (2 * int c)"
    and "astype_int (np_clip (np_rint (x / dk + y / dk) + (real n - 1) / 2) 0 (real n - 1))
         = min (max (int j + int i - int c) 0) (2 * int c)"
proof -
  have d: "x / dk - y / dk = of_int (int j - int i)" "x / dk + y / dk = of_int (int j + int i - 2 * int c)"
    using assms(1-3) by simp_all
  have h: "(real n - 1) / 2 = of_int (int c)" "real n - 1 = of_int (2 * int c)"
    using assms(4) by simp_all
  have "np_rint (x / dk - y / dk) + (real n - 1) / 2 = of_int (int j - int i + int c)"
    unfolding d h np_rint_of_int by simp
  then show "astype_int (np_clip (np_rint (x / dk - y / dk) + (real n - 1) / 2) 0 (real n - 1))
         = min (max (int j - int i + int c) 0) (2 * int c)"
    unfolding h(2) by (simp only: np_clip_of_int astype_int_of_int)
  have "np_rint (x / dk + y / dk) + (real n - 1) / 2 = of_int (int j + int i - int c)"
    unfolding d h np_rint_of_int by simp
  then show "astype_int (np_clip (np_rint (x / dk + y / dk) + (real n - 1) / 2) 0 (real n - 1))
         = min (max (int j + int i - int c) 0) (2 * int c)"
    unfolding h(2) by (simp only: np_clip_of_int astype_int_of_int)
qed

lemma qss_tables:
  assumes "qss_n q = 2 * c + 1" "qss_dk q \<noteq> 0"
    and "list_all (\<lambda>j. qss_ks q ! j = (real j - real c) * qss_dk q) [0..<2 * c + 1]"
  shows "qss_im q = mat (2 * c + 1) (2 * c + 1) (\<lambda>i j. min (max (int j - int i + int c) 0) (2 * int c))"
    and "qss_ip q = mat (2 * c + 1) (2 * c + 1) (\<lambda>i j. min (max (int j + int i - int c) 0) (2 * int c))"
proof -
  have ks: "qss_ks q ! j = (real j - real c) * qss_dk q" if "j < 2 * c + 1" for j
  proof -
    have "\<forall>k<length [0..<2 * c + 1].
        qss_ks q ! ([0..<2 * c + 1] ! k) = (real ([0..<2 * c + 1] ! k) - real c) * qss_dk q"
      using assms(3) by (simp only: list_all_length)
    then show ?thesis
      using that by (simp del: upt_Suc)
  qed
  have r: "real (2 * c + 1) - 1 = 2 * real c"
    by simp
  show "qss_im q = mat (2 * c + 1) (2 * c + 1) (\<lambda>i j. min (max (int j - int i + int c) 0) (2 * int c))"
    unfolding qss_im_def assms(1)
    by (rule mat_cong [OF refl refl]) (rule table_entry(1) [OF assms(2) ks ks r])
  show "qss_ip q = mat (2 * c + 1) (2 * c + 1) (\<lambda>i j. min (max (int j + int i - int c) 0) (2 * int c))"
    unfolding qss_ip_def assms(1)
    by (rule mat_cong [OF refl refl]) (rule table_entry(2) [OF assms(2) ks ks r])
qed

lemma index_table_mat:
  "(\<And>i j. i < n \<Longrightarrow> j < n \<Longrightarrow> 0 \<le> f i j \<and> f i j < int n) \<Longrightarrow> index_table n (mat n n f)"
  by (simp add: index_table_def list_all_length)

section \<open>Hermitian and symmetric generator blocks\<close>

lemma np_fft_dft_at: "a \<noteq> [] \<Longrightarrow> np_fft a = Inr (map (\<lambda>k. dft_at a (int k)) [0..<length a])"
  by (simp add: np_fft_def dft_at_def)

lemma cis_shift_2pi: "cis (x + 2 * pi * real_of_int k) = cis x"
proof -
  have "cis (x + 2 * pi * real_of_int k) = cis x * cis (2 * pi * real_of_int k)"
    by (simp only: cis_mult)
  then show ?thesis by simp
qed

lemma twiddle_periodic:
  assumes "0 < n"
  shows "cis (- (2 * pi * real j * real_of_int (z mod int n) / real n))
       = cis (- (2 * pi * real j * real_of_int z / real n))"
proof -
  have "real_of_int (z mod int n) + real n * real_of_int (z div int n)
      = real_of_int (z mod int n + int n * (z div int n))"
    by (simp only: of_int_add of_int_mult of_int_of_nat_eq)
  also have "z mod int n + int n * (z div int n) = z"
    by simp
  finally have eq: "real_of_int z = real_of_int (z mod int n) + real n * real_of_int (z div int n)"
    by (rule sym)
  have "- (2 * pi * real j * real_of_int (z mod int n) / real n)
      = - (2 * pi * real j * real_of_int z / real n) + 2 * pi * real_of_int (int j * (z div int n))"
    unfolding eq using assms by (simp add: field_simps)
  then show ?thesis
    by (simp only: cis_shift_2pi)
qed

lemma dft_at_periodic: "a \<noteq> [] \<Longrightarrow> dft_at a (z mod int (length a)) = dft_at a z"
  by (simp add: dft_at_def twiddle_periodic)

lemma dft_at_cnj:
  assumes "\<And>j. j < length a \<Longrightarrow> cnj (a ! j) = a ! j"
  shows "cnj (dft_at a z) = dft_at a (- z)"
  using assms by (simp add: dft_at_def cis_cnj)

lemma myfft_dft_at:
  assumes "a \<noteq> []"
  shows "myfft a dz = Inr (map (\<lambda>p. dft_at a (int p - int (length a div 2)) * of_real dz / of_real (sqrt (2 * pi)))
            [0..<length a])"
proof -
  let ?n = "length a"
  let ?g = "map (\<lambda>c. c * of_real dz / of_real (sqrt (2 * pi))) (map (\<lambda>k. dft_at a (int k)) [0..<?n])"
  have n: "0 < ?n" using assms by simp
  have "fftshift ?g = map (\<lambda>p. dft_at a (int p - int (?n div 2)) * of_real dz / of_real (sqrt (2 * pi))) [0..<?n]"
  proof (rule nth_equalityI)
    show "length (fftshift ?g) = length (map (\<lambda>p. dft_at a (int p - int (?n div 2)) * of_real dz / of_real (sqrt (2 * pi))) [0..<?n])"
      by simp
  next
    fix p assume "p < length (fftshift ?g)"
    then have p: "p < ?n" by simp
    let ?z = "int p - int (?n div 2)"
    have k: "nat (?z mod int ?n) < ?n" "int (nat (?z mod int ?n)) = ?z mod int ?n"
      using n by (simp_all add: nat_less_iff)
    have "fftshift ?g ! p = ?g ! nat (?z mod int ?n)"
      using p by (simp add: fftshift_nth)
    also have "\<dots> = dft_at a (?z mod int ?n) * of_real dz / of_real (sqrt (2 * pi))"
      using k by simp
    also have "\<dots> = dft_at a ?z * of_real dz / of_real (sqrt (2 * pi))"
      by (simp only: dft_at_periodic [OF assms])
    finally show "fftshift ?g ! p = map (\<lambda>p. dft_at a (int p - int (?n div 2)) * of_real dz / of_real (sqrt (2 * pi))) [0..<?n] ! p"
      using p by simp
  qed
  then show ?thesis
    using assms by (simp add: myfft_def np_fft_dft_at)
qed

lemma m_dft_at:
  assumes "u \<noteq> []"
  shows "m u TN dz = Inr (map (\<lambda>p. dft_at (map (\<lambda>c. of_real ((cmod c)\<^sup>2)) u) (int p - int (length u div 2))
            * of_real dz / of_real (sqrt (2 * pi)) / of_real TN) [0..<length u])"
  using assms myfft_dft_at [of "map (\<lambda>c. of_real ((cmod c)\<^sup>2)) u" dz]
  by (simp add: m_def)

lemma s_length:
  assumes "u \<noteq> []"
  shows "\<exists>sk. s u TN dz = Inr sk \<and> length sk = length u"
  using assms myfft_dft_at [of "map (\<lambda>c. c\<^sup>2) u" dz]
  by (simp add: s_def)

lemma clip_sum:
  fixes d c :: int
  assumes "0 \<le> c"
  shows "min (max (d + c) 0) (2 * c) + min (max (- d + c) 0) (2 * c) = 2 * c"
  using assms by (simp add: min_def max_def)

lemma clip_range:
  fixes x c :: int
  assumes "0 \<le> c"
  shows "0 \<le> min (max x 0) (2 * c) \<and> min (max x 0) (2 * c) < int (2 * nat c + 1)"
  using assms by (simp add: min_def max_def)

lemma mk_conj_symmetric:
  assumes "length u = 2 * c + 1" "p + q = 2 * c"
  shows "cnj (dft_at (map (\<lambda>x. of_real ((cmod x)\<^sup>2)) u) (int q - int c) * of_real dz / of_real (sqrt (2 * pi)) / of_real TN)
       = dft_at (map (\<lambda>x. of_real ((cmod x)\<^sup>2)) u) (int p - int c) * of_real dz / of_real (sqrt (2 * pi)) / of_real TN"
proof -
  have "cnj (dft_at (map (\<lambda>x. of_real ((cmod x)\<^sup>2)) u) (int q - int c))
      = dft_at (map (\<lambda>x. of_real ((cmod x)\<^sup>2)) u) (- (int q - int c))"
    by (rule dft_at_cnj) simp
  also have "- (int q - int c) = int p - int c"
    using assms(2) by simp
  finally show ?thesis
    by simp
qed

lemma A_hermitian_odd:
  assumes u: "length u = 2 * c + 1" and ks: "length ks = 2 * c + 1"
    and im: "im = mat (2 * c + 1) (2 * c + 1) (\<lambda>i j. min (max (int j - int i + int c) 0) (2 * int c))"
  shows "\<exists>a. A u TD TN dz ks dk im (2 * c + 1) = Inr a \<and> a = mconj (mT a)"
proof -
  let ?n = "2 * c + 1"
  let ?t = "\<lambda>i j. min (max (int j - int i + int c) 0) (2 * int c)"
  let ?X = "\<lambda>p. dft_at (map (\<lambda>x. of_real ((cmod x)\<^sup>2)) u) (int p - int c)
            * of_real dz / of_real (sqrt (2 * pi)) / of_real TN"
  let ?mk = "map ?X [0..<?n]"
  let ?f = "\<lambda>i j. (if i = j then of_real ((ks ! i)\<^sup>2 / (2 * TD)) else 0)
           + of_real (2 * dk) * ?mk ! nat (im ! i ! j) / of_real (sqrt (2 * pi))"
  have ne: "u \<noteq> []" using u by auto
  have half: "length u div 2 = c" using u by simp
  have mk: "m u TN dz = Inr ?mk"
    using m_dft_at [OF ne, of TN dz] unfolding half unfolding u .
  have tab: "index_table ?n im"
    unfolding im using clip_range [of "int c"] by (intro index_table_mat) simp
  have A: "A u TD TN dz ks dk im ?n = Inr (mat ?n ?n ?f)"
    by (rule A_mat [OF tab ks mk]) simp
  have sym: "?f i j = cnj (?f j i)" if "i < ?n" "j < ?n" for i j
  proof -
    define p where "p = nat (?t i j)"
    define q where "q = nat (?t j i)"
    have r: "0 \<le> ?t i j" "0 \<le> ?t j i" "?t i j < int ?n" "?t j i < int ?n"
      using clip_range [of "int c"] by simp_all
    have "?t i j + ?t j i = 2 * int c"
      using clip_sum [of "int c" "int j - int i"] by (simp add: algebra_simps)
    then have pq: "p + q = 2 * c"
      using r by (simp add: p_def q_def nat_add_distrib [symmetric])
    have lt: "p < ?n" "q < ?n"
      using r by (simp_all add: p_def q_def nat_less_iff)
    have e: "nat (im ! i ! j) = p" "nat (im ! j ! i) = q"
      unfolding im p_def q_def
      by (simp_all only: nth_nth_mat [OF that] nth_nth_mat [OF that(2,1)])
    have "cnj (?mk ! q) = ?mk ! p"
      using lt mk_conj_symmetric [OF u pq, of dz TN] by (simp del: upt_Suc)
    then show ?thesis
      unfolding e by (auto simp del: upt_Suc)
  qed
  have "mconj (mT (mat ?n ?n ?f)) = mat ?n ?n (\<lambda>i j. cnj (?f j i))"
    by (simp only: mT_mat_square mconj_mat)
  also have "\<dots> = mat ?n ?n ?f"
    by (rule mat_cong [OF refl refl]) (rule sym [symmetric])
  finally show ?thesis
    using A by simp
qed

lemma B_symmetric_odd:
  assumes u: "length u = 2 * c + 1"
    and ip: "ip = mat (2 * c + 1) (2 * c + 1) (\<lambda>i j. min (max (int j + int i - int c) 0) (2 * int c))"
  shows "\<exists>b. B u TN dz dk ip = Inr b \<and> b = mT b"
proof -
  let ?n = "2 * c + 1"
  have ne: "u \<noteq> []" using u by auto
  obtain sk where sk: "s u TN dz = Inr sk" "length sk = ?n"
    using s_length [OF ne, of TN dz] u by auto
  let ?f = "\<lambda>i j. of_real dk * sk ! nat (ip ! i ! j) / of_real (sqrt (2 * pi))"
  have tab: "index_table ?n ip"
    unfolding ip using clip_range [of "int c"] by (intro index_table_mat) simp
  have B: "B u TN dz dk ip = Inr (mat ?n ?n ?f)"
    by (rule B_mat [OF tab sk])
  have "mT (mat ?n ?n ?f) = mat ?n ?n (\<lambda>i j. ?f j i)"
    by (simp only: mT_mat_square)
  also have "\<dots> = mat ?n ?n ?f"
    by (rule mat_cong [OF refl refl]) (simp add: ip add.commute del: upt_Suc)
  finally show ?thesis
    using B by simp
qed

text \<open>
  C6. For an odd number \<open>n > 1\<close> of grid points, a grid half-width \<open>zf\<close> other than zero,
  the index tables \<open>im\<close> and \<open>ip\<close> that \<open>qss.evolution\<close> builds from the grid of
  \<open>qss.__init__\<close>, a field \<open>u\<close> and a frequency grid \<open>ks\<close> of length \<open>n\<close> and nonzero
  \<open>TD\<close> and \<open>TN\<close>: \<open>A\<close> returns a matrix equal to its conjugate transpose and \<open>B\<close> a
  matrix equal to its transpose.
\<close>

theorem A_hermitian_B_symmetric:
  assumes "odd n" "1 < n" "zf \<noteq> 0" "length u = n" "length ks = n" "TD \<noteq> 0" "TN \<noteq> 0"
    and "qss_init zf n = Inr q"
  shows "\<exists>a b. A u TD TN dz ks dk (qss_im q) n = Inr a \<and> a = mconj (mT a)
             \<and> B u TN dz dk (qss_ip q) = Inr b \<and> b = mT b"
proof -
  obtain c where c: "n = 2 * c + 1"
    using assms(1) by (auto elim: oddE)
  have c1: "1 \<le> c"
    using assms(2) c by simp
  obtain q' where q': "qss_init zf (2 * c + 1) = Inr q'" "qss_n q' = 2 * c + 1" "qss_dk q' \<noteq> 0"
    "list_all (\<lambda>j. qss_ks q' ! j = (real j - real c) * qss_dk q') [0..<2 * c + 1]"
    using qss_init_odd [OF c1 assms(3)] by blast
  have "q' = q"
    using q'(1) assms(8) c by simp
  then have tabs:
    "qss_im q = mat (2 * c + 1) (2 * c + 1) (\<lambda>i j. min (max (int j - int i + int c) 0) (2 * int c))"
    "qss_ip q = mat (2 * c + 1) (2 * c + 1) (\<lambda>i j. min (max (int j + int i - int c) 0) (2 * int c))"
    using qss_tables [OF q'(2,3,4)] by simp_all
  show ?thesis
    using A_hermitian_odd [OF assms(4,5) [unfolded c] tabs(1), of TD TN dz dk]
      B_symmetric_odd [OF assms(4) [unfolded c] tabs(2), of TN dz dk]
    unfolding c by blast
qed

theorem A_hermitian_B_symmetric_witness:
  "\<exists>q a b. qss_init 5 3 = Inr q
     \<and> A [1, \<i>, 2] 1 1 (qss_dz q) (qss_ks q) (qss_dk q) (qss_im q) 3 = Inr a \<and> a = mconj (mT a)
     \<and> B [1, \<i>, 2] 1 (qss_dz q) (qss_dk q) (qss_ip q) = Inr b \<and> b = mT b"
proof -
  obtain q where q: "qss_init 5 (2 * 1 + 1) = Inr q" "length (qss_ks q) = 2 * 1 + 1"
    using qss_init_odd [of 1 5] by auto
  have q3: "qss_init 5 3 = Inr q" "length (qss_ks q) = 3"
    using q by simp_all
  show ?thesis
    using A_hermitian_B_symmetric [of 3 5 "[1, \<i>, 2]" "qss_ks q" 1 1 q "qss_dz q" "qss_dk q"] q3
    by simp
qed

section \<open>The order of the sub-steps\<close>

lemma field_after_step:
  "field_after TD TN G kk dt u (Suc k) =
     and_then (field_after TD TN G kk dt u k) (P_mean_field_step TD TN G kk dt)"
  by (cases "field_after TD TN G kk dt u k") (simp_all add: P_mean_field_step_def)

lemma transfer_loop_eq:
  "for_range k (transfer_step expm TD TN G dz kk ks dk im ip dt n) (u, np_identity (2 * n)) =
     and_then (transfer_after expm TD TN G dz kk ks dk im ip dt n u k) (\<lambda>K.
     and_then (field_after TD TN G kk dt u k) (\<lambda>v. Inr (v, K)))"
proof (induction k)
  case 0
  then show ?case by simp
next
  case (Suc k)
  show ?case
  proof (cases "transfer_after expm TD TN G dz kk ks dk im ip dt n u k")
    case (Inl e)
    then show ?thesis
      unfolding for_range_Suc_right Suc.IH by simp
  next
    case K: (Inr K0)
    show ?thesis
    proof (cases "field_after TD TN G kk dt u k")
      case (Inl e)
      then show ?thesis
        unfolding for_range_Suc_right Suc.IH by (simp add: K)
    next
      case v: (Inr v0)
      have loop: "for_range k (transfer_step expm TD TN G dz kk ks dk im ip dt n) (u, np_identity (2 * n))
          = Inr (v0, K0)"
        unfolding Suc.IH K v by simp
      have step: "for_range (Suc k) (transfer_step expm TD TN G dz kk ks dk im ip dt n) (u, np_identity (2 * n))
          = transfer_step expm TD TN G dz kk ks dk im ip dt n (v0, K0)"
        unfolding for_range_Suc_right loop by simp
      show ?thesis
        by (subst step)
           (simp add: transfer_step_def K v P_mean_field_step_def and_then_def split: sum.splits)
    qed
  qed
qed

lemma loss_loop_eq:
  "for_range k (P_loss_step expm TD TN G dz kk ks dk im ip dt n)
      (u, Arr1 (np_zeros n), Arr1 (np_zeros n)) =
     and_then (moments_after expm TD TN G dz kk ks dk im ip dt n u k) (\<lambda>MN.
     and_then (field_after TD TN G kk dt u k) (\<lambda>v. Inr (v, fst MN, snd MN)))"
proof (induction k)
  case 0
  then show ?case by simp
next
  case (Suc k)
  show ?case
  proof (cases "moments_after expm TD TN G dz kk ks dk im ip dt n u k")
    case (Inl e)
    then show ?thesis
      unfolding for_range_Suc_right Suc.IH by simp
  next
    case MN': (Inr MN0)
    obtain M0 N0 where MN0: "MN0 = (M0, N0)" by (cases MN0)
    note MN = MN' [unfolded MN0]
    show ?thesis
    proof (cases "field_after TD TN G kk dt u k")
      case (Inl e)
      then show ?thesis
        unfolding for_range_Suc_right Suc.IH by (simp add: MN)
    next
      case v: (Inr v0)
      have loop: "for_range k (P_loss_step expm TD TN G dz kk ks dk im ip dt n)
          (u, Arr1 (np_zeros n), Arr1 (np_zeros n)) = Inr (v0, M0, N0)"
        unfolding Suc.IH MN v by simp
      have step: "for_range (Suc k) (P_loss_step expm TD TN G dz kk ks dk im ip dt n)
          (u, Arr1 (np_zeros n), Arr1 (np_zeros n))
          = P_loss_step expm TD TN G dz kk ks dk im ip dt n (v0, M0, N0)"
        unfolding for_range_Suc_right loop by simp
      show ?thesis
        by (subst step)
           (simp add: P_loss_step_field MN v P_mean_field_step_def and_then_def split: sum.splits)
    qed
  qed
qed

text \<open>
  C5. Each of \<open>P_no_loss\<close>, \<open>P_loss\<close> and \<open>P_Nico\<close> computes what the steps of the
  specification give, errors included: after \<open>tf\<close> steps the field is \<open>field_after tf\<close>,
  where every step is the half dispersion/loss step, then the nonlinear step whose
  reference is the field from before that half step, then the second half step; the
  generator of a step is built from the field after the step, and its exponential
  multiplies the transfer matrix from the left (\<open>transfer_after\<close>) or, in \<open>P_loss\<close>,
  updates the moments (\<open>moments_after\<close>).
\<close>

theorem propagation_step_order:
  "P_no_loss expm u TD TN dz kk ks dk im ip tf dt n =
     and_then (transfer_after expm TD TN 0 dz kk ks dk im ip dt n u (nat tf)) (\<lambda>K.
     and_then (field_after TD TN 0 kk dt u (nat tf)) (\<lambda>uf.
     and_then (matmul (top_left n K) (mT (top_right n K))) (\<lambda>M.
     and_then (matmul (mconj (top_right n K)) (mT (top_right n K))) (\<lambda>N.
     Inr (uf, M, N)))))
   \<and> P_loss expm u TD TN G dz kk ks dk im ip tf dt n =
     and_then (moments_after expm TD TN G dz kk ks dk im ip dt n u (nat tf)) (\<lambda>MN.
     and_then (field_after TD TN G kk dt u (nat tf)) (\<lambda>uf.
     Inr (uf, fst MN, snd MN)))
   \<and> P_Nico expm u TD TN G dz kk ks dk im ip tf dt n =
     and_then (transfer_after expm TD TN G dz kk ks dk im ip dt n u (nat tf)) (\<lambda>K.
     and_then (field_after TD TN G kk dt u (nat tf)) (\<lambda>uf.
     and_then (matmul (top_left n K) (mT (top_right n K))) (\<lambda>M.
     and_then (matmul (mconj (top_right n K)) (mT (top_right n K))) (\<lambda>N.
     Inr (uf, smul (of_real (exp (- G * dt * of_int tf))) M,
              smul (of_real (exp (- G * dt * of_int tf))) N)))))"
proof (intro conjI)
  show "P_no_loss expm u TD TN dz kk ks dk im ip tf dt n =
     and_then (transfer_after expm TD TN 0 dz kk ks dk im ip dt n u (nat tf)) (\<lambda>K.
     and_then (field_after TD TN 0 kk dt u (nat tf)) (\<lambda>uf.
     and_then (matmul (top_left n K) (mT (top_right n K))) (\<lambda>M.
     and_then (matmul (mconj (top_right n K)) (mT (top_right n K))) (\<lambda>N.
     Inr (uf, M, N)))))"
    unfolding P_no_loss_transfer transfer_moments_def transfer_loop_eq
    by (simp add: and_then_def split: sum.splits)
  show "P_loss expm u TD TN G dz kk ks dk im ip tf dt n =
     and_then (moments_after expm TD TN G dz kk ks dk im ip dt n u (nat tf)) (\<lambda>MN.
     and_then (field_after TD TN G kk dt u (nat tf)) (\<lambda>uf.
     Inr (uf, fst MN, snd MN)))"
    unfolding P_loss_def loss_loop_eq ..
  show "P_Nico expm u TD TN G dz kk ks dk im ip tf dt n =
     and_then (transfer_after expm TD TN G dz kk ks dk im ip dt n u (nat tf)) (\<lambda>K.
     and_then (field_after TD TN G kk dt u (nat tf)) (\<lambda>uf.
     and_then (matmul (top_left n K) (mT (top_right n K))) (\<lambda>M.
     and_then (matmul (mconj (top_right n K)) (mT (top_right n K))) (\<lambda>N.
     Inr (uf, smul (of_real (exp (- G * dt * of_int tf))) M,
              smul (of_real (exp (- G * dt * of_int tf))) N)))))"
    unfolding P_Nico_transfer transfer_moments_def transfer_loop_eq
    by (simp add: and_then_def split: sum.splits)
qed

section \<open>Inputs of consistent shape return\<close>

lemma is_square_mat [simp]: "is_square k (mat k k f)"
  by (simp add: is_square_def list_all_length)

lemma is_square_eq: "is_square k X \<Longrightarrow> X = mat k k (\<lambda>i j. X ! i ! j)"
  by (rule mat_eqI) (auto simp add: is_square_def list_all_length)

lemma is_square_dims: "is_square k X \<Longrightarrow> nrows X = k \<and> ncols X = k"
  by (cases X) (auto simp add: is_square_def nrows_def ncols_def)

lemma is_square_smul: "is_square k X \<Longrightarrow> is_square k (smul z X)"
  by (auto simp add: is_square_def smul_def list_all_length)

lemma is_square_expm: "is_square k X \<Longrightarrow> is_square k (expm_sq_scalar X)"
  using is_square_dims [of k X] by (simp add: expm_sq_scalar_def Let_def)

lemma matmul_square:
  assumes "is_square k E" "is_square k K"
  shows "\<exists>K'. matmul E K = Inr K' \<and> is_square k K'"
  using is_square_dims [OF assms(1)] is_square_dims [OF assms(2)] by (simp add: matmul_def)

lemma np_fft_length: "u \<noteq> [] \<Longrightarrow> \<exists>v. np_fft u = Inr v \<and> length v = length u"
  by (simp add: np_fft_def)

lemma np_ifft_length: "u \<noteq> [] \<Longrightarrow> \<exists>v. np_ifft u = Inr v \<and> length v = length u"
  by (simp add: np_ifft_def)

lemma bcast1_same_length:
  "length x = length y \<Longrightarrow> \<exists>v. bcast1 f x y = Inr v \<and> length v = length y"
  by (simp add: bcast1_def)

lemma opD_returns:
  assumes "u \<noteq> []" "length kk = length u"
  shows "\<exists>v. opD u TD G kk dt = Inr v \<and> length v = length u"
proof -
  obtain k where k: "np_fft u = Inr k" "length k = length u"
    using np_fft_length [OF assms(1)] by blast
  obtain p where p: "bcast1 (*) (map (\<lambda>x. exp (of_real (dt / 2) * (\<i> * of_real (x\<^sup>2) / of_real (2 * TD)))) kk) k = Inr p"
    "length p = length k"
    using bcast1_same_length [of "map (\<lambda>x. exp (of_real (dt / 2) * (\<i> * of_real (x\<^sup>2) / of_real (2 * TD)))) kk" k "(*)"]
      assms(2) k(2) by auto
  have "p \<noteq> []" using p(2) k(2) assms(1) by auto
  then obtain r where r: "np_ifft p = Inr r" "length r = length p"
    using np_ifft_length by blast
  show ?thesis
    using k p r by (simp add: opD_def)
qed

lemma opN_returns:
  assumes "TN \<noteq> 0" "length ui = length u"
  shows "\<exists>v. opN u TN ui dt = Inr v \<and> length v = length u"
  using assms bcast1_same_length [of "map (\<lambda>c. exp (of_real dt * \<i> / of_real TN * of_real ((cmod c)\<^sup>2))) ui" u "(*)"]
  by (simp add: opN_def)

lemma field_step_returns:
  assumes "u \<noteq> []" "length kk = length u" "TN \<noteq> 0"
  shows "\<exists>v. P_mean_field_step TD TN G kk dt u = Inr v \<and> length v = length u"
proof -
  obtain a where a: "opD u TD G kk dt = Inr a" "length a = length u"
    using opD_returns [OF assms(1,2)] by blast
  obtain b where b: "opN a TN u dt = Inr b" "length b = length a"
    using opN_returns [OF assms(3), of u a dt] a(2) by auto
  have "b \<noteq> []" "length kk = length b" using a b assms by auto
  then obtain c where c: "opD b TD G kk dt = Inr c" "length c = length b"
    using opD_returns by blast
  show ?thesis
    using a b c by (simp add: P_mean_field_step_def)
qed

lemma Q_returns:
  assumes "0 < n" "length u = n" "length ks = n" "index_table n im" "index_table n ip"
  shows "\<exists>q. Q u TD TN dz ks dk im ip n = Inr q \<and> is_square (2 * n) q"
proof -
  have ne: "u \<noteq> []" using assms(1,2) by auto
  obtain mk where mk: "m u TN dz = Inr mk" "length mk = n"
    using m_dft_at [OF ne, of TN dz] assms(2) by simp
  obtain sk where sk: "s u TN dz = Inr sk" "length sk = n"
    using s_length [OF ne, of TN dz] assms(2) by auto
  show ?thesis
    by (simp add: Q_def A_mat [OF assms(4,3) mk] B_mat [OF assms(5) sk] mconj_mat mT_mat_square
        mneg_mat np_block_mat)
qed

lemma transfer_step_returns:
  assumes "0 < n" "length u = n" "length kk = n" "length ks = n" "index_table n im" "index_table n ip"
    "TN \<noteq> 0" "is_square (2 * n) K"
  shows "\<exists>v K'. transfer_step expm_sq_scalar TD TN G dz kk ks dk im ip dt n (u, K) = Inr (v, K')
           \<and> length v = n \<and> is_square (2 * n) K'"
proof -
  have ne: "u \<noteq> []" using assms(1,2) by auto
  obtain v where v: "P_mean_field_step TD TN G kk dt u = Inr v" "length v = n"
    using field_step_returns [OF ne _ assms(7), of kk TD G dt] assms(2,3) by auto
  obtain q where q: "Q v TD TN dz ks dk im ip n = Inr q" "is_square (2 * n) q"
    using Q_returns [OF assms(1) v(2) assms(4,5,6)] by blast
  obtain K' where K': "matmul (expm_sq_scalar (smul (\<i> * of_real dt) q)) K = Inr K'" "is_square (2 * n) K'"
    using matmul_square [OF is_square_expm [OF is_square_smul [OF q(2)]] assms(8)] by blast
  show ?thesis
    using v q(1) K' by (simp add: transfer_step_def)
qed

lemma transfer_loop_returns:
  assumes "0 < n" "length kk = n" "length ks = n" "index_table n im" "index_table n ip" "TN \<noteq> 0"
  shows "length u = n \<Longrightarrow> is_square (2 * n) K \<Longrightarrow>
    \<exists>v K'. for_range k (transfer_step expm_sq_scalar TD TN G dz kk ks dk im ip dt n) (u, K) = Inr (v, K')
           \<and> length v = n \<and> is_square (2 * n) K'"
proof (induction k arbitrary: u K)
  case 0
  then show ?case by simp
next
  case (Suc k)
  obtain v K1 where s: "transfer_step expm_sq_scalar TD TN G dz kk ks dk im ip dt n (u, K) = Inr (v, K1)"
    "length v = n" "is_square (2 * n) K1"
    using transfer_step_returns [OF assms(1) Suc.prems(1) assms(2-6) Suc.prems(2)] by blast
  show ?case
    using Suc.IH [OF s(2,3)] s(1) by simp
qed

lemma is_square_identity: "is_square k (np_identity k)"
  by (simp add: np_identity_def)

lemma top_blocks_square:
  assumes "is_square (2 * n) K"
  shows "is_square n (top_left n K)" "is_square n (top_right n K)"
proof -
  have K: "K = mat (2 * n) (2 * n) (\<lambda>i j. K ! i ! j)"
    using is_square_eq [OF assms] .
  show "is_square n (top_left n K)"
    by (subst K) (simp add: top_left_mat)
  show "is_square n (top_right n K)"
    by (subst K) (simp add: top_right_mat)
qed

lemma is_square_mT: "is_square k X \<Longrightarrow> is_square k (mT X)"
  by (subst is_square_eq [of k X], assumption) (simp add: mT_mat_square)

lemma is_square_mconj: "is_square k X \<Longrightarrow> is_square k (mconj X)"
  by (subst is_square_eq [of k X], assumption) (simp add: mconj_mat)

lemma transfer_moments_returns:
  assumes "0 < n" "length u = n" "length kk = n" "length ks = n" "index_table n im" "index_table n ip"
    "TN \<noteq> 0"
  shows "\<exists>v M N. transfer_moments expm_sq_scalar u TD TN G dz kk ks dk im ip k dt n = Inr (v, M, N)"
proof -
  obtain v K where l: "for_range k (transfer_step expm_sq_scalar TD TN G dz kk ks dk im ip dt n)
      (u, np_identity (2 * n)) = Inr (v, K)" "is_square (2 * n) K"
    using transfer_loop_returns [OF assms(1,3-7) assms(2) is_square_identity] by blast
  note b = top_blocks_square [OF l(2)]
  obtain M where M: "matmul (top_left n K) (mT (top_right n K)) = Inr M"
    using matmul_square [OF b(1) is_square_mT [OF b(2)]] by blast
  obtain N where N: "matmul (mconj (top_right n K)) (mT (top_right n K)) = Inr N"
    using matmul_square [OF is_square_mconj [OF b(2)] is_square_mT [OF b(2)]] by blast
  show ?thesis
    using l(1) M N by (simp add: transfer_moments_def)
qed

lemma nd_shape_T: "nd_shape n X \<Longrightarrow> nd_shape n (nd_T X)"
  by (cases X) (simp_all add: is_square_mT)

lemma nd_shape_conj: "nd_shape n X \<Longrightarrow> nd_shape n (nd_conj X)"
  by (cases X) (simp_all add: is_square_mconj)

lemma nd_shape_smul: "nd_shape n X \<Longrightarrow> nd_shape n (nd_smul z X)"
  by (cases X) (simp_all add: is_square_smul)

lemma nd_matmul_shape:
  assumes "nd_shape n X" "nd_shape n Y" "nd_rank X = 2 \<or> nd_rank Y = 2"
  shows "\<exists>Z. nd_matmul X Y = Inr Z \<and> nd_shape n Z"
proof (cases X)
  case (Arr0 c)
  then show ?thesis using assms by simp
next
  case (Arr1 v)
  then obtain b where Y: "Y = Arr2 b" using assms(3) by (cases Y) simp_all
  show ?thesis
    using assms(1,2) is_square_dims [of n b] by (simp add: Arr1 Y)
next
  case (Arr2 a)
  show ?thesis
  proof (cases Y)
    case (Arr0 c)
    then show ?thesis using assms by simp
  next
    case (Arr1 v)
    then show ?thesis
      using assms(1,2) is_square_dims [of n a] by (simp add: Arr2)
  next
    case Y: (Arr2 b)
    obtain c where "matmul a b = Inr c" "is_square n c"
      using matmul_square [of n a b] assms(1,2) by (auto simp add: Arr2 Y)
    then show ?thesis
      by (simp add: Arr2 Y)
  qed
qed

lemma nd_add_shape:
  assumes "0 < n" "nd_shape n X" "nd_shape n Y"
  shows "\<exists>Z. nd_add X Y = Inr Z \<and> nd_shape n Z \<and> nd_rank Z = max (nd_rank X) (nd_rank Y)"
proof (cases X)
  case (Arr0 c)
  then show ?thesis using assms by simp
next
  case X: (Arr1 v)
  show ?thesis
  proof (cases Y)
    case (Arr0 c)
    then show ?thesis using assms by simp
  next
    case (Arr1 w)
    then show ?thesis
      using assms
      by (simp add: X nd_add_def bcast2_def bdim_def nrows_def ncols_def nd_of_rows_def)
  next
    case (Arr2 b)
    then show ?thesis
      using assms is_square_dims [of n b]
      by (auto simp add: X nd_add_def bcast2_def bdim_def nrows_def nd_of_rows_def ncols_def)
  qed
next
  case X: (Arr2 a)
  show ?thesis
  proof (cases Y)
    case (Arr0 c)
    then show ?thesis using assms by simp
  next
    case (Arr1 w)
    then show ?thesis
      using assms is_square_dims [of n a]
      by (auto simp add: X nd_add_def bcast2_def bdim_def nrows_def nd_of_rows_def ncols_def)
  next
    case (Arr2 b)
    then show ?thesis
      using assms is_square_dims [of n a] is_square_dims [of n b]
      by (auto simp add: X nd_add_def bcast2_def bdim_def nrows_def nd_of_rows_def ncols_def)
  qed
qed

lemma mm_triple:
  assumes "is_square n a" "nd_shape n X" "is_square n b"
  shows "\<exists>Z. mm (mm (Inr (Arr2 a)) (Inr X)) (Inr (Arr2 b)) = Inr Z \<and> nd_shape n Z"
proof -
  obtain Y where Y: "nd_matmul (Arr2 a) X = Inr Y" "nd_shape n Y"
    using nd_matmul_shape [of n "Arr2 a" X] assms by auto
  obtain Z where Z: "nd_matmul Y (Arr2 b) = Inr Z" "nd_shape n Z"
    using nd_matmul_shape [of n Y "Arr2 b"] assms Y by auto
  show ?thesis
    using Y Z by (simp add: mm_def)
qed

lemma mm_pair:
  assumes "is_square n a" "is_square n b"
  shows "\<exists>Z. mm (Inr (Arr2 a)) (Inr (Arr2 b)) = Inr Z \<and> nd_shape n Z"
  using nd_matmul_shape [of n "Arr2 a" "Arr2 b"] assms by (simp add: mm_def)

lemma pl_shape:
  assumes "0 < n" "\<exists>X. x = Inr X \<and> nd_shape n X" "\<exists>Y. y = Inr Y \<and> nd_shape n Y"
  shows "\<exists>Z. pl x y = Inr Z \<and> nd_shape n Z"
proof -
  obtain X Y where "x = Inr X" "nd_shape n X" "y = Inr Y" "nd_shape n Y"
    using assms(2,3) by blast
  then show ?thesis
    using nd_add_shape [OF assms(1), of X Y] by (auto simp add: pl_def)
qed

lemma P_loss_moments_returns:
  assumes n: "0 < n" and a: "is_square n a" and b: "is_square n b"
    and M: "nd_shape n M" and N: "nd_shape n N"
  shows "\<exists>M' N'. P_loss_moments (Arr2 a) (Arr2 b) G dt M N = Inr (M', N')
           \<and> nd_shape n M' \<and> nd_shape n N'"
proof -
  note sq = a b is_square_mT [OF a] is_square_mT [OF b] is_square_mconj [OF a] is_square_mconj [OF b]
  obtain M1 where M1:
    "pl (pl (pl (pl (mm (mm (Inr (Arr2 a)) (Inr M)) (Inr (Arr2 (mT a))))
                    (mm (mm (Inr (Arr2 b)) (Inr (nd_conj M))) (Inr (Arr2 (mT b)))))
                (mm (mm (Inr (Arr2 b)) (Inr N)) (Inr (Arr2 (mT a)))))
            (mm (mm (Inr (Arr2 a)) (Inr (nd_T N))) (Inr (Arr2 (mT b)))))
        (mm (Inr (Arr2 a)) (Inr (Arr2 (mT b)))) = Inr M1" "nd_shape n M1"
    using pl_shape [OF n pl_shape [OF n pl_shape [OF n pl_shape [OF n
            mm_triple [OF sq(1) M sq(3)]
            mm_triple [OF sq(2) nd_shape_conj [OF M] sq(4)]]
            mm_triple [OF sq(2) N sq(3)]]
            mm_triple [OF sq(1) nd_shape_T [OF N] sq(4)]]
            mm_pair [OF sq(1) sq(4)]]
    by blast
  obtain N1 where N1:
    "pl (pl (pl (pl (mm (mm (Inr (Arr2 (mconj b))) (Inr M1)) (Inr (Arr2 (mT a))))
                    (mm (mm (Inr (Arr2 (mconj a))) (Inr (nd_conj M1))) (Inr (Arr2 (mT b)))))
                (mm (mm (Inr (Arr2 (mconj a))) (Inr N)) (Inr (Arr2 (mT a)))))
            (mm (mm (Inr (Arr2 (mconj b))) (Inr (nd_T N))) (Inr (Arr2 (mT b)))))
        (mm (Inr (Arr2 (mconj b))) (Inr (Arr2 (mT b)))) = Inr N1" "nd_shape n N1"
    using pl_shape [OF n pl_shape [OF n pl_shape [OF n pl_shape [OF n
            mm_triple [OF sq(6) M1(2) sq(3)]
            mm_triple [OF sq(5) nd_shape_conj [OF M1(2)] sq(4)]]
            mm_triple [OF sq(5) N sq(3)]]
            mm_triple [OF sq(6) nd_shape_T [OF N] sq(4)]]
            mm_pair [OF sq(6) sq(4)]]
    by blast
  show ?thesis
    using M1 N1 by (simp add: P_loss_moments_def nd_shape_smul)
qed

lemma P_loss_step_returns:
  assumes "0 < n" "length u = n" "length kk = n" "length ks = n" "index_table n im" "index_table n ip"
    "TN \<noteq> 0" "nd_shape n M" "nd_shape n N"
  shows "\<exists>v M' N'. P_loss_step expm_sq_scalar TD TN G dz kk ks dk im ip dt n (u, M, N) = Inr (v, M', N')
           \<and> length v = n \<and> nd_shape n M' \<and> nd_shape n N'"
proof -
  have ne: "u \<noteq> []" using assms(1,2) by auto
  obtain v where v: "P_mean_field_step TD TN G kk dt u = Inr v" "length v = n"
    using field_step_returns [OF ne _ assms(7), of kk TD G dt] assms(2,3) by auto
  obtain q where q: "Q v TD TN dz ks dk im ip n = Inr q" "is_square (2 * n) q"
    using Q_returns [OF assms(1) v(2) assms(4,5,6)] by blast
  note b = top_blocks_square [OF is_square_expm [OF is_square_smul [OF q(2), of "\<i> * of_real dt"]]]
  obtain M' N' where MN: "P_loss_moments (Arr2 (top_left n (expm_sq_scalar (smul (\<i> * of_real dt) q))))
      (Arr2 (top_right n (expm_sq_scalar (smul (\<i> * of_real dt) q)))) G dt M N = Inr (M', N')"
    "nd_shape n M'" "nd_shape n N'"
    using P_loss_moments_returns [OF assms(1) b assms(8,9)] by blast
  show ?thesis
    using v q(1) MN by (simp add: P_loss_step_field and_then_def)
qed

lemma P_loss_loop_returns:
  assumes "0 < n" "length kk = n" "length ks = n" "index_table n im" "index_table n ip" "TN \<noteq> 0"
  shows "length u = n \<Longrightarrow> nd_shape n M \<Longrightarrow> nd_shape n N \<Longrightarrow>
    \<exists>v M' N'. for_range k (P_loss_step expm_sq_scalar TD TN G dz kk ks dk im ip dt n) (u, M, N) = Inr (v, M', N')
           \<and> length v = n \<and> nd_shape n M' \<and> nd_shape n N'"
proof (induction k arbitrary: u M N)
  case 0
  then show ?case by simp
next
  case (Suc k)
  obtain v M1 N1 where s: "P_loss_step expm_sq_scalar TD TN G dz kk ks dk im ip dt n (u, M, N) = Inr (v, M1, N1)"
    "length v = n" "nd_shape n M1" "nd_shape n N1"
    using P_loss_step_returns [OF assms(1) Suc.prems(1) assms(2-6) Suc.prems(2,3)] by blast
  show ?case
    using Suc.IH [OF s(2,3,4)] s(1) by simp
qed

lemma P_loss_returns:
  assumes "0 < n" "length u = n" "length kk = n" "length ks = n" "index_table n im" "index_table n ip"
    "TN \<noteq> 0"
  shows "\<exists>v M N. P_loss expm_sq_scalar u TD TN G dz kk ks dk im ip tf dt n = Inr (v, M, N)"
  using P_loss_loop_returns [OF assms(1,3-7) assms(2), of "Arr1 (np_zeros n)" "Arr1 (np_zeros n)" "nat tf"]
  unfolding P_loss_def by (simp add: np_zeros_def) blast

lemma P_no_loss_returns:
  assumes "0 < n" "length u = n" "length kk = n" "length ks = n" "index_table n im" "index_table n ip"
    "TN \<noteq> 0"
  shows "\<exists>v M N. P_no_loss expm_sq_scalar u TD TN dz kk ks dk im ip tf dt n = Inr (v, M, N)"
  using transfer_moments_returns [OF assms] by (simp add: P_no_loss_transfer)

lemma P_Nico_returns:
  assumes "0 < n" "length u = n" "length kk = n" "length ks = n" "index_table n im" "index_table n ip"
    "TN \<noteq> 0"
  shows "\<exists>v M N. P_Nico expm_sq_scalar u TD TN G dz kk ks dk im ip tf dt n = Inr (v, M, N)"
proof -
  obtain v M N where "transfer_moments expm_sq_scalar u TD TN G dz kk ks dk im ip (nat tf) dt n = Inr (v, M, N)"
    using transfer_moments_returns [OF assms] by blast
  then show ?thesis
    by (simp add: P_Nico_transfer)
qed

section \<open>A grid of two points on which the order is observable\<close>

lemma np_fft_2: "np_fft [a, b] = Inr [a + b, a - b]"
  by (simp add: np_fft_def upt_rec numeral_2_eq_2 cis_cnj [symmetric])

lemma np_ifft_2: "np_ifft [a, b] = Inr [(a + b) / 2, (a - b) / 2]"
  by (simp add: np_ifft_def upt_rec numeral_2_eq_2)

lemma bcast1_22: "bcast1 f [x, x'] [y, y'] = Inr [f x y, f x' y']"
  by (simp add: bcast1_def bdim_def bidx_def upt_rec numeral_2_eq_2)

lemma example_dispersion_phase:
  "exp (complex_of_real (pi / 2 / 2) * (\<i> * of_real ((- pi)\<^sup>2) / of_real (2 * - (pi\<^sup>2 / 4)))) = - \<i>"
proof -
  have "complex_of_real (pi / 2 / 2) * (\<i> * of_real ((- pi)\<^sup>2) / of_real (2 * - (pi\<^sup>2 / 4)))
        = \<i> * complex_of_real (- (pi / 2))"
    by (simp add: power2_eq_square field_simps)
  then show ?thesis
    by (simp only: cis_conv_exp [symmetric] cis_minus_pi_half)
qed

lemma example_nonlinear_phase:
  "exp (complex_of_real (pi / 2) * \<i> / of_real 1 * of_real x) = cis (pi / 2 * x)"
  by (simp add: cis_conv_exp mult_ac)

lemma example_opD:
  "opD [a, b] (- (pi\<^sup>2 / 4)) 0 [0, - pi] (pi / 2) = Inr [(a + b - \<i> * (a - b)) / 2, (a + b + \<i> * (a - b)) / 2]"
proof -
  have "opD [a, b] (- (pi\<^sup>2 / 4)) 0 [0, - pi] (pi / 2)
        = and_then (bcast1 (*) [1, - \<i>] [a + b, a - b]) (\<lambda>p.
          and_then (np_ifft p) (\<lambda>r. Inr (map (\<lambda>c. c * of_real (exp (pi / 2 / 2 * (- 0 / 2)))) r)))"
    unfolding opD_def np_fft_2 and_then_Inr list.map example_dispersion_phase by simp
  then show ?thesis
    by (simp add: bcast1_22 np_ifft_2 field_simps)
qed

lemma example_opN:
  "opN [a, b] 1 [v, w] (pi / 2) = Inr [cis (pi / 2 * (cmod v)\<^sup>2) * a, cis (pi / 2 * (cmod w)\<^sup>2) * b]"
  unfolding opN_def list.map example_nonlinear_phase by (simp add: bcast1_22)

lemma example_first_step:
  "field_after (- (pi\<^sup>2 / 4)) 1 0 [0, - pi] (pi / 2) [1, 0] (Suc 0) = Inr [(1 + \<i>) / 2, (1 + \<i>) / 2]"
  by (simp add: example_opD example_opN field_simps)

lemma example_other_orders:
  "and_then (opN [1, 0] 1 [1, 0] (pi / 2)) (\<lambda>w.
     and_then (opD w (- (pi\<^sup>2 / 4)) 0 [0, - pi] (pi / 2)) (\<lambda>h.
     opD h (- (pi\<^sup>2 / 4)) 0 [0, - pi] (pi / 2))) = Inr [0, \<i>]"
  "and_then (opD [1, 0] (- (pi\<^sup>2 / 4)) 0 [0, - pi] (pi / 2)) (\<lambda>h.
     and_then (opN h 1 h (pi / 2)) (\<lambda>w.
     opD w (- (pi\<^sup>2 / 4)) 0 [0, - pi] (pi / 2))) = Inr [0, cis (pi / 4)]"
   apply (simp add: example_opD example_opN field_simps)
  apply (simp add: example_opD example_opN cmod_power2 norm_divide norm_mult power_divide)
  apply (simp add: field_simps cmod_power2)
  done

lemma index_table_2: "index_table 2 [[1, 0], [0, 1]]"
  by (simp add: index_table_def)

lemma myfft_2: "myfft [x, y] dz = Inr [(x - y) * of_real dz / of_real (sqrt (2 * pi)), (x + y) * of_real dz / of_real (sqrt (2 * pi))]"
  by (simp add: myfft_def np_fft_2 fftshift_def np_roll_def upt_rec numeral_2_eq_2)

lemma example_Q:
  "Q [z, z] (- (pi\<^sup>2 / 4)) 1 1 [- pi, 0] pi [[1, 0], [0, 1]] [[1, 0], [0, 1]] 2 =
     Inr [[of_real (2 * (cmod z)\<^sup>2 - 2), 0, z\<^sup>2, 0],
          [0, of_real (2 * (cmod z)\<^sup>2), 0, z\<^sup>2],
          [- cnj (z\<^sup>2), 0, of_real (2 - 2 * (cmod z)\<^sup>2), 0],
          [0, - cnj (z\<^sup>2), 0, - of_real (2 * (cmod z)\<^sup>2)]]"
proof -
  have m: "m [z, z] 1 1 = Inr [0, of_real (2 * (cmod z)\<^sup>2) / of_real (sqrt (2 * pi))]"
    by (simp add: m_def myfft_2)
  have s: "s [z, z] 1 1 = Inr [0, 2 * z\<^sup>2 / of_real (sqrt (2 * pi))]"
    by (simp add: s_def myfft_2)
  have q: "complex_of_real (sqrt (2 * pi)) * complex_of_real (sqrt (2 * pi)) = 2 * of_real pi"
    by (rule sqrt_2pi_sq)
  have q': "complex_of_real (sqrt (pi * 2)) * complex_of_real (sqrt (pi * 2)) = of_real pi * 2"
    using q by (simp add: mult.commute)
  have a: "A [z, z] (- (pi\<^sup>2 / 4)) 1 1 [- pi, 0] pi [[1, 0], [0, 1]] 2 =
      Inr [[of_real (2 * (cmod z)\<^sup>2 - 2), 0], [0, of_real (2 * (cmod z)\<^sup>2)]]"
    by (subst A_mat [OF index_table_2 _ m])
       (simp_all add: mat_def upt_rec numeral_2_eq_2 power2_eq_square q q' field_simps)
  have b: "B [z, z] 1 1 pi [[1, 0], [0, 1]] = Inr [[z\<^sup>2, 0], [0, z\<^sup>2]]"
    by (subst B_mat [OF index_table_2 s])
       (simp_all add: mat_def upt_rec numeral_2_eq_2 q)
  show ?thesis
    unfolding Q_def a b and_then_Inr
    by (simp add: np_block_def mneg_def mconj_def mT_def mat_def nrows_def ncols_def
        upt_rec numeral_2_eq_2)
qed

lemma example_second_step:
  "field_after (- (pi\<^sup>2 / 4)) 1 0 [0, - pi] (pi / 2) [1, 0] (Suc (Suc 0)) =
     Inr [cis (pi / 4) * ((1 + \<i>) / 2), cis (pi / 4) * ((1 + \<i>) / 2)]"
proof -
  have c: "(cmod ((1 + \<i>) / 2))\<^sup>2 = 1 / 2"
    by (simp add: cmod_power2 power_divide)
  have "field_after (- (pi\<^sup>2 / 4)) 1 0 [0, - pi] (pi / 2) [1, 0] (Suc (Suc 0)) =
      and_then (opD [(1 + \<i>) / 2, (1 + \<i>) / 2] (- (pi\<^sup>2 / 4)) 0 [0, - pi] (pi / 2)) (\<lambda>h.
      and_then (opN h 1 [(1 + \<i>) / 2, (1 + \<i>) / 2] (pi / 2)) (\<lambda>w.
      opD w (- (pi\<^sup>2 / 4)) 0 [0, - pi] (pi / 2)))"
    unfolding field_after.simps(2) [of _ _ _ _ _ _ "Suc 0"] example_first_step and_then_Inr ..
  also have "\<dots> = Inr [cis (pi / 4) * ((1 + \<i>) / 2), cis (pi / 4) * ((1 + \<i>) / 2)]"
    unfolding example_opD and_then_Inr example_opN c by (simp add: field_simps)
  finally show ?thesis .
qed

lemma example_Q_square:
  assumes "(cmod z)\<^sup>2 = 1 / 2"
  shows "and_then (Q [z, z] (- (pi\<^sup>2 / 4)) 1 1 [- pi, 0] pi [[1, 0], [0, 1]] [[1, 0], [0, 1]] 2)
           (\<lambda>q. matmul q q) = Inr (smul (3 / 4) (np_identity 4))"
proof -
  have "of_real ((cmod z)\<^sup>2) = z * cnj z"
    by (rule complex_norm_square)
  then have zz: "z * cnj z = 1 / 2"
    using assms by simp
  have "z\<^sup>2 * cnj (z\<^sup>2) = (z * cnj z)\<^sup>2"
    by (simp add: power2_eq_square)
  then have z4: "z\<^sup>2 * cnj (z\<^sup>2) = 1 / 4" "cnj (z\<^sup>2) * z\<^sup>2 = 1 / 4"
    by (simp_all add: zz power2_eq_square mult.commute)
  have e: "z * z * (cnj z * cnj z) = 1 / 4" "cnj z * cnj z * (z * z) = 1 / 4"
    using z4 by (simp_all add: power2_eq_square)
  show ?thesis
    unfolding example_Q and_then_Inr assms
    by (simp add: matmul_def nrows_def ncols_def mat_def upt_rec np_identity_def smul_def
        numeral_eq_Suc power2_eq_square e)
qed

lemma example_generators_do_not_commute:
  "and_then (Q [(1 + \<i>) / 2, (1 + \<i>) / 2] (- (pi\<^sup>2 / 4)) 1 1 [- pi, 0] pi [[1, 0], [0, 1]] [[1, 0], [0, 1]] 2) (\<lambda>q1.
   and_then (Q [cis (pi / 4) * ((1 + \<i>) / 2), cis (pi / 4) * ((1 + \<i>) / 2)] (- (pi\<^sup>2 / 4)) 1 1 [- pi, 0] pi
               [[1, 0], [0, 1]] [[1, 0], [0, 1]] 2) (\<lambda>q2.
   matmul q2 q1))
   \<noteq>
   and_then (Q [(1 + \<i>) / 2, (1 + \<i>) / 2] (- (pi\<^sup>2 / 4)) 1 1 [- pi, 0] pi [[1, 0], [0, 1]] [[1, 0], [0, 1]] 2) (\<lambda>q1.
   and_then (Q [cis (pi / 4) * ((1 + \<i>) / 2), cis (pi / 4) * ((1 + \<i>) / 2)] (- (pi\<^sup>2 / 4)) 1 1 [- pi, 0] pi
               [[1, 0], [0, 1]] [[1, 0], [0, 1]] 2) (\<lambda>q2.
   matmul q1 q2))"
proof -
  have a: "((1 + \<i>) / 2)\<^sup>2 = \<i> / 2"
    by (simp add: power2_eq_square field_simps)
  have c: "(cis (pi / 4))\<^sup>2 = \<i>"
    by (simp add: power2_eq_square cis_mult)
  have b: "(cis (pi / 4) * ((1 + \<i>) / 2))\<^sup>2 = - 1 / 2"
    unfolding power_mult_distrib a c by simp
  have m: "(cmod ((1 + \<i>) / 2))\<^sup>2 = 1 / 2" "(cmod (cis (pi / 4) * ((1 + \<i>) / 2)))\<^sup>2 = 1 / 2"
    by (simp_all add: cmod_power2 power_divide norm_mult)
  show ?thesis
    unfolding example_Q and_then_Inr a b m
    by (simp add: matmul_def nrows_def ncols_def mat_def upt_rec numeral_eq_Suc complex_eq_iff)
qed

text \<open>
  The three variants on a grid of two points: \<open>u = [1, 0]\<close>, \<open>TD = - pi\<^sup>2 / 4\<close>, \<open>TN = 1\<close>,
  \<open>dz = 1\<close>, \<open>kk = [0, - pi]\<close>, \<open>ks = [- pi, 0]\<close>, \<open>dk = pi\<close>, \<open>dt = pi / 2\<close>, no loss, two
  steps. The half dispersion step mixes the two points, so the first step gives
  \<open>[(1 + i) / 2, (1 + i) / 2]\<close> (\<open>example_first_step\<close>), while the nonlinear step first,
  or the nonlinear step with the field after the half step as reference, gives \<open>[0, i]\<close>
  and \<open>[0, exp(i pi / 4)]\<close> (\<open>example_other_orders\<close>). The field after a step is not the
  field before it, and the generators of the two steps do not commute
  (\<open>example_generators_do_not_commute\<close>). Both generators have the square \<open>3/4 I\<close>
  (\<open>example_Q_square\<close>), so \<open>expm_sq_scalar\<close> is the exponential on this input. Each
  variant returns, with the field and the moments of the steps of the specification.
\<close>

theorem propagation_step_order_witness:
  "(\<exists>K M N.
      P_no_loss expm_sq_scalar [1, 0] (- (pi\<^sup>2 / 4)) 1 1 [0, - pi] [- pi, 0] pi
        [[1, 0], [0, 1]] [[1, 0], [0, 1]] 2 (pi / 2) 2
        = Inr ([cis (pi / 4) * ((1 + \<i>) / 2), cis (pi / 4) * ((1 + \<i>) / 2)], M, N)
      \<and> transfer_after expm_sq_scalar (- (pi\<^sup>2 / 4)) 1 0 1 [0, - pi] [- pi, 0] pi
          [[1, 0], [0, 1]] [[1, 0], [0, 1]] (pi / 2) 2 [1, 0] 2 = Inr K
      \<and> matmul (top_left 2 K) (mT (top_right 2 K)) = Inr M
      \<and> matmul (mconj (top_right 2 K)) (mT (top_right 2 K)) = Inr N)
   \<and> (\<exists>M N.
      P_loss expm_sq_scalar [1, 0] (- (pi\<^sup>2 / 4)) 1 0 1 [0, - pi] [- pi, 0] pi
        [[1, 0], [0, 1]] [[1, 0], [0, 1]] 2 (pi / 2) 2
        = Inr ([cis (pi / 4) * ((1 + \<i>) / 2), cis (pi / 4) * ((1 + \<i>) / 2)], M, N)
      \<and> moments_after expm_sq_scalar (- (pi\<^sup>2 / 4)) 1 0 1 [0, - pi] [- pi, 0] pi
          [[1, 0], [0, 1]] [[1, 0], [0, 1]] (pi / 2) 2 [1, 0] 2 = Inr (M, N))
   \<and> (\<exists>K M N.
      P_Nico expm_sq_scalar [1, 0] (- (pi\<^sup>2 / 4)) 1 0 1 [0, - pi] [- pi, 0] pi
        [[1, 0], [0, 1]] [[1, 0], [0, 1]] 2 (pi / 2) 2
        = Inr ([cis (pi / 4) * ((1 + \<i>) / 2), cis (pi / 4) * ((1 + \<i>) / 2)], M, N)
      \<and> transfer_after expm_sq_scalar (- (pi\<^sup>2 / 4)) 1 0 1 [0, - pi] [- pi, 0] pi
          [[1, 0], [0, 1]] [[1, 0], [0, 1]] (pi / 2) 2 [1, 0] 2 = Inr K
      \<and> matmul (top_left 2 K) (mT (top_right 2 K)) = Inr M
      \<and> matmul (mconj (top_right 2 K)) (mT (top_right 2 K)) = Inr N)"
proof -
  note order = propagation_step_order [where expm = expm_sq_scalar and u = "[1, 0]"
      and TD = "- (pi\<^sup>2 / 4)" and TN = 1 and dz = 1 and kk = "[0, - pi]" and ks = "[- pi, 0]"
      and dk = pi and im = "[[1, 0], [0, 1]]" and ip = "[[1, 0], [0, 1]]" and tf = 2
      and dt = "pi / 2" and n = 2 and G = 0]
  have two: "nat 2 = Suc (Suc 0)"
    by simp
  note f = example_second_step
  obtain u1 M1 N1 where r1: "P_no_loss expm_sq_scalar [1, 0] (- (pi\<^sup>2 / 4)) 1 1 [0, - pi] [- pi, 0] pi
      [[1, 0], [0, 1]] [[1, 0], [0, 1]] 2 (pi / 2) 2 = Inr (u1, M1, N1)"
    using P_no_loss_returns [of 2 "[1, 0]" "[0, - pi]" "[- pi, 0]" "[[1, 0], [0, 1]]" "[[1, 0], [0, 1]]" 1]
      index_table_2
    by (simp only: length_Cons list.size One_nat_def) (simp, blast)
  obtain u2 M2 N2 where r2: "P_loss expm_sq_scalar [1, 0] (- (pi\<^sup>2 / 4)) 1 0 1 [0, - pi] [- pi, 0] pi
      [[1, 0], [0, 1]] [[1, 0], [0, 1]] 2 (pi / 2) 2 = Inr (u2, M2, N2)"
    using P_loss_returns [of 2 "[1, 0]" "[0, - pi]" "[- pi, 0]" "[[1, 0], [0, 1]]" "[[1, 0], [0, 1]]" 1]
      index_table_2
    by (simp only: length_Cons list.size One_nat_def) (simp, blast)
  obtain u3 M3 N3 where r3: "P_Nico expm_sq_scalar [1, 0] (- (pi\<^sup>2 / 4)) 1 0 1 [0, - pi] [- pi, 0] pi
      [[1, 0], [0, 1]] [[1, 0], [0, 1]] 2 (pi / 2) 2 = Inr (u3, M3, N3)"
    using P_Nico_returns [of 2 "[1, 0]" "[0, - pi]" "[- pi, 0]" "[[1, 0], [0, 1]]" "[[1, 0], [0, 1]]" 1]
      index_table_2
    by (simp only: length_Cons list.size One_nat_def) (simp, blast)
  have c1: "\<exists>K. u1 = [cis (pi / 4) * ((1 + \<i>) / 2), cis (pi / 4) * ((1 + \<i>) / 2)]
      \<and> transfer_after expm_sq_scalar (- (pi\<^sup>2 / 4)) 1 0 1 [0, - pi] [- pi, 0] pi
          [[1, 0], [0, 1]] [[1, 0], [0, 1]] (pi / 2) 2 [1, 0] 2 = Inr K
      \<and> matmul (top_left 2 K) (mT (top_right 2 K)) = Inr M1
      \<and> matmul (mconj (top_right 2 K)) (mT (top_right 2 K)) = Inr N1"
    using r1 unfolding order [THEN conjunct1] two f and_then_eq_Inr
    by (auto simp add: numeral_2_eq_2)
  have c2: "u2 = [cis (pi / 4) * ((1 + \<i>) / 2), cis (pi / 4) * ((1 + \<i>) / 2)]
      \<and> moments_after expm_sq_scalar (- (pi\<^sup>2 / 4)) 1 0 1 [0, - pi] [- pi, 0] pi
          [[1, 0], [0, 1]] [[1, 0], [0, 1]] (pi / 2) 2 [1, 0] 2 = Inr (M2, N2)"
    using r2 unfolding order [THEN conjunct2, THEN conjunct1] two f and_then_eq_Inr
    by (auto simp add: numeral_2_eq_2)
  have c3: "\<exists>K M N. u3 = [cis (pi / 4) * ((1 + \<i>) / 2), cis (pi / 4) * ((1 + \<i>) / 2)]
      \<and> M3 = M \<and> N3 = N
      \<and> transfer_after expm_sq_scalar (- (pi\<^sup>2 / 4)) 1 0 1 [0, - pi] [- pi, 0] pi
          [[1, 0], [0, 1]] [[1, 0], [0, 1]] (pi / 2) 2 [1, 0] 2 = Inr K
      \<and> matmul (top_left 2 K) (mT (top_right 2 K)) = Inr M
      \<and> matmul (mconj (top_right 2 K)) (mT (top_right 2 K)) = Inr N"
    using r3 unfolding order [THEN conjunct2, THEN conjunct2] two f and_then_eq_Inr
    by (auto simp add: numeral_2_eq_2 smul_one)
  show ?thesis
    using r1 r2 r3 c1 c2 c3 by blast
qed

section \<open>Inputs of inconsistent length or spacing\<close>

lemma np_fft_empty: "np_fft [] = Inl ValueError"
  by (simp add: np_fft_def)

lemma opD_empty: "opD [] TD G kk dt = Inl ValueError"
  by (simp add: opD_def np_fft_empty)

lemma P_loss_zero_steps:
  "P_loss expm u TD TN G dz kk ks dk im ip 0 dt n = Inr (u, Arr1 (np_zeros n), Arr1 (np_zeros n))"
  by (simp add: P_loss_def)

lemma P_Nico_zero_steps:
  "P_Nico expm u TD TN G dz kk ks dk im ip 0 dt n = Inr (u, mat n n (\<lambda>i j. 0), mat n n (\<lambda>i j. 0))"
  by (simp add: P_Nico_def top_left_identity top_right_identity mT_zeros mconj_mat
      matmul_zeros_right Let_def smul_mat)

lemma nat_succ_int: "nat (1 + int k) = Suc k"
  by simp

lemma np_roll_map: "np_roll (map g x) k = map g (np_roll x k)"
  by (cases "x = []") (simp_all add: np_roll_def roll_index)

lemma myfft_ext_finite:
  "myfft_ext z (Finite dz) = and_then (myfft z dz) (\<lambda>f. Inr (map FiniteC f))"
  by (cases "np_fft z") (simp_all add: myfft_ext_def myfft_def fftshift_def np_roll_map o_def)

lemma myifft_ext_finite:
  "myifft_ext k (Finite dk) n = and_then (myifft k dk n) (\<lambda>f. Inr (map FiniteC f))"
  by (cases "np_ifft k") (simp_all add: myifft_ext_def myifft_def ifftshift_def np_roll_map o_def)

lemma np_roll_replicate: "np_roll (replicate l v) k = replicate l v"
  by (cases "l = 0") (auto simp add: np_roll_def roll_index intro!: nth_equalityI)

lemma myfft_ext_nonfinite:
  "myfft_ext (x # xs) NonFinite = Inr (replicate (Suc (length xs)) NonFiniteC)"
proof -
  have "map (\<lambda>c. NonFiniteC) [0..<length xs] = replicate (length xs) NonFiniteC"
    by (simp add: map_replicate_const)
  then show ?thesis
    using np_roll_replicate [of "Suc (length xs)" NonFiniteC]
    by (simp add: myfft_ext_def np_fft_def fftshift_def o_def map_replicate_const del: upt_Suc replicate_Suc)
qed

lemma myifft_ext_nonfinite:
  "myifft_ext (x # xs) NonFinite n = Inr (replicate (Suc (length xs)) NonFiniteC)"
  using np_roll_replicate [of "Suc (length xs)" NonFiniteC]
  by (simp add: myifft_ext_def np_ifft_def ifftshift_def o_def map_replicate_const del: upt_Suc replicate_Suc)

lemma evolution_array:
  "evolution q T0 (PumpArray u) rest = (if length u \<noteq> qss_n q then Inl ValueError else rest u T0)"
  by (simp add: evolution_def evolution_pump_def)

lemma transforms_empty:
  "myfft [] dz = Inl ValueError" "myifft [] dk n = Inl ValueError"
  "myfft_ext [] sp = Inl ValueError" "myifft_ext [] sp n = Inl ValueError"
  by (simp_all add: myfft_def myifft_def myfft_ext_def myifft_ext_def np_fft_def np_ifft_def)

lemma empty_field_first_step:
  "P_no_loss expm [] TD TN dz kk ks dk im ip (1 + int k) dt n = Inl ValueError"
  "P_loss expm [] TD TN G dz kk ks dk im ip (1 + int k) dt n = Inl ValueError"
  "P_Nico expm [] TD TN G dz kk ks dk im ip (1 + int k) dt n = Inl ValueError"
  by (simp_all only: P_no_loss_def P_loss_def P_Nico_def nat_succ_int for_range.simps
      P_no_loss_step_def P_loss_step_def P_Nico_step_def prod.case opD_empty and_then_Inl)

text \<open>
  C9. The claim has the transforms fail on a spacing that is not finite, and has
  dimension errors raised before stepping begins. The code never inspects the spacing:
  on \<open>[1, 0, 0]\<close> with a non-finite spacing both transforms return an array of non-finite
  values. The propagation functions of kerrlib check nothing before the loop: with no
  step to run, \<open>P_no_loss\<close> returns on an empty field, empty grids and empty index
  tables for \<open>n = 3\<close>.
\<close>

theorem nonfinite_spacing_not_rejected:
  "myfft_ext [1, 0, 0] NonFinite = Inr [NonFiniteC, NonFiniteC, NonFiniteC]
   \<and> myifft_ext [1, 0, 0] NonFinite 3 = Inr [NonFiniteC, NonFiniteC, NonFiniteC]
   \<and> P_no_loss expm_diag [] 1 1 1 [] [] 1 [] [] 0 1 3
        = Inr ([], mat 3 3 (\<lambda>i j. 0), mat 3 3 (\<lambda>i j. 0))"
  using myfft_ext_nonfinite [of 1 "[0, 0]"] myifft_ext_nonfinite [of 1 "[0, 0]" 3]
    P_no_loss_zero_steps [of expm_diag "[]" 1 1 1 "[]" "[]" 1 "[]" "[]" 1 3]
  by (simp add: numeral_eq_Suc)

text \<open>
  C9, as the code has it. \<open>myfft\<close> and \<open>myifft\<close> fail on an input of length 0, with the
  ValueError of numpy's transform, whatever the spacing. A non-finite spacing is not
  rejected: on a non-empty input both return an array of non-finite values. In
  \<open>qss.evolution\<close> a field given as an array whose length is not \<open>n\<close> raises ValueError
  before anything else runs, and a field of length \<open>n\<close> is passed on unchanged. Called
  directly, \<open>P_no_loss\<close>, \<open>P_loss\<close> and \<open>P_Nico\<close> raise ValueError on an empty field in
  the first half dispersion step of the first iteration when there is at least one
  step, and return without an error when there is none (the number of points \<open>n\<close> is a
  natural number here; for a negative \<open>n\<close> the source fails in \<open>np.identity\<close> or
  \<open>np.zeros\<close>).
\<close>

theorem transforms_and_length_checks:
  "myfft [] dz = Inl ValueError
   \<and> myifft [] dk n = Inl ValueError
   \<and> myfft_ext [] sp = Inl ValueError
   \<and> myifft_ext [] sp n = Inl ValueError
   \<and> myfft_ext (x # xs) NonFinite = Inr (replicate (Suc (length xs)) NonFiniteC)
   \<and> myifft_ext (x # xs) NonFinite n = Inr (replicate (Suc (length xs)) NonFiniteC)
   \<and> evolution q T0 (PumpArray u) rest = (if length u \<noteq> qss_n q then Inl ValueError else rest u T0)
   \<and> P_no_loss expm [] TD TN dz' kk ks dk' im ip (1 + int k) dt n = Inl ValueError
   \<and> P_loss expm [] TD TN G dz' kk ks dk' im ip (1 + int k) dt n = Inl ValueError
   \<and> P_Nico expm [] TD TN G dz' kk ks dk' im ip (1 + int k) dt n = Inl ValueError
   \<and> (\<exists>r. P_no_loss expm [] TD TN dz' kk ks dk' im ip 0 dt n = Inr r)
   \<and> (\<exists>r. P_loss expm [] TD TN G dz' kk ks dk' im ip 0 dt n = Inr r)
   \<and> (\<exists>r. P_Nico expm [] TD TN G dz' kk ks dk' im ip 0 dt n = Inr r)"
  by (simp only: transforms_empty myfft_ext_nonfinite myifft_ext_nonfinite evolution_array
      empty_field_first_step P_no_loss_zero_steps P_loss_zero_steps P_Nico_zero_steps) simp

theorem transforms_and_length_checks_witness:
  "evolution \<lparr>qss_zf = 1, qss_n = 3, qss_zz = [- 1, 0, 1], qss_dz = 1, qss_kk = [0, 2 * pi / 3, - (2 * pi / 3)],
              qss_ks = [- (2 * pi / 3), 0, 2 * pi / 3], qss_dk = 2 * pi / 3\<rparr> 1 (PumpArray [1, 0])
     (\<lambda>u T. Inr (u, T)) = Inl ValueError
   \<and> evolution \<lparr>qss_zf = 1, qss_n = 3, qss_zz = [- 1, 0, 1], qss_dz = 1, qss_kk = [0, 2 * pi / 3, - (2 * pi / 3)],
              qss_ks = [- (2 * pi / 3), 0, 2 * pi / 3], qss_dk = 2 * pi / 3\<rparr> 1 (PumpArray [1, 0, 0])
     (\<lambda>u T. Inr (u, T)) = Inr ([1, 0, 0], 1)"
  using transforms_and_length_checks [where q = "\<lparr>qss_zf = 1, qss_n = 3, qss_zz = [- 1, 0, 1], qss_dz = 1,
        qss_kk = [0, 2 * pi / 3, - (2 * pi / 3)], qss_ks = [- (2 * pi / 3), 0, 2 * pi / 3],
        qss_dk = 2 * pi / 3\<rparr>" and ?T0.0 = 1 and u = "[1, 0]" and rest = "\<lambda>u T. Inr (u, T)"]
    transforms_and_length_checks [where q = "\<lparr>qss_zf = 1, qss_n = 3, qss_zz = [- 1, 0, 1], qss_dz = 1,
        qss_kk = [0, 2 * pi / 3, - (2 * pi / 3)], qss_ks = [- (2 * pi / 3), 0, 2 * pi / 3],
        qss_dk = 2 * pi / 3\<rparr>" and ?T0.0 = 1 and u = "[1, 0, 0]" and rest = "\<lambda>u T. Inr (u, T)"]
  by simp

end
